theory Spec2Isabelle
  imports Complex_Main "HOL-Library.Sublist" "HOL-Library.Multiset"
begin

section \<open>Values of the host language\<close>

text \<open>
  The catalogue arrives as a JSON document. A JSON value is one of the six kinds below;
  objects are kept as the list of their properties in document order (keys distinct, as
  the JSON reader leaves them). Number literals denote finite decimals and are kept
  exactly, as rationals: the binary rounding of a literal, the sign of zero, and
  literals beyond the range of a double are outside the model.
\<close>

datatype json =
    JNull
  | JBool bool
  | JNum rat
  | JStr string
  | JArr "json list"
  | JObj "(string \<times> json) list"

text \<open>
  Arithmetic on entries produces numbers that JSON cannot write: \<open>NaN\<close> and the two
  infinities.
\<close>

datatype jsnum = NaN | NegInf | Fin rat | PosInf

text \<open>Subtraction and negation of numbers.\<close>

fun js_minus :: "jsnum \<Rightarrow> jsnum \<Rightarrow> jsnum" where
  "js_minus (Fin a) (Fin b) = Fin (a - b)"
| "js_minus NaN y = NaN"
| "js_minus x NaN = NaN"
| "js_minus PosInf PosInf = NaN"
| "js_minus NegInf NegInf = NaN"
| "js_minus PosInf y = PosInf"
| "js_minus NegInf y = NegInf"
| "js_minus x PosInf = NegInf"
| "js_minus x NegInf = PosInf"

fun js_neg :: "jsnum \<Rightarrow> jsnum" where
  "js_neg NaN = NaN"
| "js_neg NegInf = PosInf"
| "js_neg (Fin a) = Fin (- a)"
| "js_neg PosInf = NegInf"

text \<open>\<^verbatim>\<open>x <= y\<close> on numbers; every comparison with \<open>NaN\<close> is false.\<close>

fun js_le :: "jsnum \<Rightarrow> jsnum \<Rightarrow> bool" where
  "js_le NaN y = False"
| "js_le x NaN = False"
| "js_le NegInf y = True"
| "js_le x PosInf = True"
| "js_le (Fin a) (Fin b) = (a \<le> b)"
| "js_le x y = False"

definition js_ge :: "jsnum \<Rightarrow> jsnum \<Rightarrow> bool" where
  "js_ge x y = js_le y x"

definition js_gt :: "jsnum \<Rightarrow> jsnum \<Rightarrow> bool" where
  "js_gt x y = (js_le y x \<and> \<not> js_le x y)"

text \<open>
  Everything the code throws. \<open>ValidationError\<close> is the
  \<^verbatim>\<open>Error('Game data must include id and title')\<close> of the \<^verbatim>\<open>Game\<close> constructor,
  \<open>HttpError\<close> the \<^verbatim>\<open>Error('HTTP error! status: ...')\<close> and \<open>InvalidFormat\<close> the
  \<^verbatim>\<open>Error('Invalid data format: expected games array')\<close> of \<^verbatim>\<open>loadGames\<close>;
  \<open>TransportError\<close> and \<open>JsonError\<close> are the rejections of \<^verbatim>\<open>fetch\<close> and of
  \<^verbatim>\<open>response.json()\<close>; \<open>TypeError\<close> is the host's own, raised by a property read
  on \<^verbatim>\<open>null\<close> or a call of a method the value does not have. \<open>GameDataError\<close>
  wraps whatever \<^verbatim>\<open>loadGames\<close> caught.
\<close>

datatype error =
    ValidationError
  | TypeError
  | HttpError nat
  | TransportError
  | JsonError
  | InvalidFormat
  | GameDataError error

text \<open>Sequencing of computations that may throw.\<close>

definition bind_err :: "error + 'a \<Rightarrow> ('a \<Rightarrow> error + 'b) \<Rightarrow> error + 'b" where
  "bind_err r f = (case r of Inl e \<Rightarrow> Inl e | Inr x \<Rightarrow> f x)"

fun map_err :: "('a \<Rightarrow> error + 'b) \<Rightarrow> 'a list \<Rightarrow> error + 'b list" where
  "map_err f [] = Inr []"
| "map_err f (x # xs) =
     (case f x of
        Inl e \<Rightarrow> Inl e
      | Inr y \<Rightarrow> (case map_err f xs of Inl e \<Rightarrow> Inl e | Inr ys \<Rightarrow> Inr (y # ys)))"

subsection \<open>Truthiness and property reads\<close>

fun truthy :: "json \<Rightarrow> bool" where
  "truthy JNull = False"
| "truthy (JBool b) = b"
| "truthy (JNum r) = (r \<noteq> 0)"
| "truthy (JStr s) = (s \<noteq> [])"
| "truthy (JArr xs) = True"
| "truthy (JObj ps) = True"

text \<open>
  \<^verbatim>\<open>data.k\<close> on a value other than \<^verbatim>\<open>null\<close>: \<open>None\<close> is \<^verbatim>\<open>undefined\<close>.
  Only JSON objects carry the keys the code reads.
\<close>

fun get_prop :: "json \<Rightarrow> string \<Rightarrow> json option" where
  "get_prop (JObj ps) k = map_of ps k"
| "get_prop v k = None"

text \<open>\<^verbatim>\<open>v || d\<close> on a possibly undefined value.\<close>

definition js_or :: "json option \<Rightarrow> json \<Rightarrow> json" where
  "js_or v d = (case v of None \<Rightarrow> d | Some x \<Rightarrow> if truthy x then x else d)"

text \<open>\<^verbatim>\<open>Array.isArray(v) ? v : []\<close>\<close>

definition array_or_empty :: "json option \<Rightarrow> json list" where
  "array_or_empty v = (case v of Some (JArr xs) \<Rightarrow> xs | _ \<Rightarrow> [])"

subsection \<open>Strings\<close>

text \<open>
  Strings are byte lists here, so case folding and white space are those of ASCII.
\<close>

definition is_space :: "char \<Rightarrow> bool" where
  "is_space c \<longleftrightarrow> c \<in> set [CHR '' '', CHR 0x09, CHR 0x0A, CHR 0x0B, CHR 0x0C, CHR 0x0D]"

definition lower_char :: "char \<Rightarrow> char" where
  "lower_char c =
     (let n = (of_char c :: nat) in if 65 \<le> n \<and> n \<le> 90 then char_of (n + 32) else c)"

definition toLowerCase :: "string \<Rightarrow> string" where
  "toLowerCase s = map lower_char s"

definition trim :: "string \<Rightarrow> string" where
  "trim s = rev (dropWhile is_space (rev (dropWhile is_space s)))"

definition digit_of :: "char \<Rightarrow> nat option" where
  "digit_of c =
     (let n = (of_char c :: nat) in if 48 \<le> n \<and> n \<le> 57 then Some (n - 48) else None)"

definition hex_digit_of :: "char \<Rightarrow> nat option" where
  "hex_digit_of c =
     (let n = (of_char c :: nat) in
        if 48 \<le> n \<and> n \<le> 57 then Some (n - 48)
        else if 97 \<le> n \<and> n \<le> 102 then Some (n - 87)
        else if 65 \<le> n \<and> n \<le> 70 then Some (n - 55)
        else None)"

definition is_digit :: "char \<Rightarrow> bool" where
  "is_digit c \<longleftrightarrow> digit_of c \<noteq> None"

text \<open>The value of a run of digits in the given radix.\<close>

definition digits_value :: "int \<Rightarrow> (char \<Rightarrow> nat option) \<Rightarrow> string \<Rightarrow> int" where
  "digits_value radix dig ds =
     foldl (\<lambda>a c. radix * a + (case dig c of Some d \<Rightarrow> int d | None \<Rightarrow> 0)) 0 ds"

text \<open>An optional sign: whether it was a minus, and the rest.\<close>

fun take_sign :: "string \<Rightarrow> bool \<times> string" where
  "take_sign [] = (False, [])"
| "take_sign (c # cs) =
     (if c = CHR ''-'' then (True, cs)
      else if c = CHR ''+'' then (False, cs)
      else (False, c # cs))"

subsection \<open>The numeric parsers of the host\<close>

text \<open>
  What the parsers read off a string becomes a number of the host, a double.
  \<open>to_Number\<close> is the rounding the host applies to the exact value of the text: to the
  nearest double (53 significant bits, the least exponent \<open>-1074\<close>), to the even one
  of two equally near, and to an infinity when the rounded value reaches
  \<open>2\<^sup>1\<^sup>0\<^sup>2\<^sup>4\<close>. (For a decimal text of more than twenty significant digits the
  language lets a host drop the later digits first; the model rounds the exact value.)
\<close>

function bit_length :: "int \<Rightarrow> int" where
  "bit_length n = (if n < 1 then 0 else 1 + bit_length (n div 2))"
  by auto
termination
  by (relation "measure nat") auto

declare bit_length.simps [simp del]

definition floor_log2 :: "rat \<Rightarrow> int" where
  "floor_log2 a =
     (if 1 \<le> a then bit_length \<lfloor>a\<rfloor> - 1
      else
        (let k = bit_length \<lfloor>1 / a\<rfloor>
         in if 2 \<le> a * 2 ^ nat k then 1 - k else - k))"

definition scale2 :: "rat \<Rightarrow> int \<Rightarrow> rat" where
  "scale2 m e = (if 0 \<le> e then m * 2 ^ nat e else m / 2 ^ nat (- e))"

definition round_half_even :: "rat \<Rightarrow> int" where
  "round_half_even x =
     (let f = \<lfloor>x\<rfloor>; d = x - of_int f
      in if d < 1 / 2 then f
         else if 1 / 2 < d then f + 1
         else if even f then f
         else f + 1)"

definition to_Number :: "rat \<Rightarrow> jsnum" where
  "to_Number r =
     (if r = 0 then Fin 0
      else
        let a = \<bar>r\<bar>;
            e = max (floor_log2 a - 52) (- 1074);
            v = scale2 (of_int (round_half_even (scale2 a (- e)))) e
        in if 2 ^ 1024 \<le> v then (if r < 0 then NegInf else PosInf)
           else Fin (if r < 0 then - v else v))"

text \<open>
  \<^verbatim>\<open>parseFloat\<close> on a string: leading white space is skipped and the longest prefix
  that is a decimal literal (sign, digits, fraction, exponent, or \<^verbatim>\<open>Infinity\<close>) is
  read; with no such prefix the result is \<open>NaN\<close>. An exponent counts only when at least
  one digit follows it.
\<close>

definition exponent_of :: "string \<Rightarrow> int" where
  "exponent_of s =
     (case s of
        [] \<Rightarrow> 0
      | c # cs \<Rightarrow>
          if c = CHR ''e'' \<or> c = CHR ''E'' then
            (case take_sign cs of
               (neg, r) \<Rightarrow>
                 let ds = takeWhile is_digit r in
                 if ds = [] then 0
                 else if neg then - digits_value 10 digit_of ds
                 else digits_value 10 digit_of ds)
          else 0)"

definition scale10 :: "rat \<Rightarrow> int \<Rightarrow> rat" where
  "scale10 m e = (if 0 \<le> e then m * 10 ^ nat e else m / 10 ^ nat (- e))"

definition parseFloat_str :: "string \<Rightarrow> jsnum" where
  "parseFloat_str s =
     (case take_sign (dropWhile is_space s) of
        (neg, t) \<Rightarrow>
          if prefix ''Infinity'' t then (if neg then NegInf else PosInf)
          else
            let ip = takeWhile is_digit t;
                r1 = dropWhile is_digit t;
                fp = (case r1 of [] \<Rightarrow> [] | c # r \<Rightarrow> if c = CHR ''.'' then takeWhile is_digit r else []);
                r2 = (case r1 of [] \<Rightarrow> [] | c # r \<Rightarrow> if c = CHR ''.'' then dropWhile is_digit r else r1)
            in if ip = [] \<and> fp = [] then NaN
               else
                 let m = of_int (digits_value 10 digit_of ip)
                         + of_int (digits_value 10 digit_of fp) / 10 ^ length fp;
                     v = scale10 m (exponent_of r2)
                 in to_Number (if neg then - v else v))"

text \<open>
  \<^verbatim>\<open>parseFloat\<close>, \<^verbatim>\<open>parseInt\<close> and \<^verbatim>\<open>new Date\<close> first turn an object or an
  array into a string, and that conversion can throw. An object of a JSON document has
  no method of its own: it prints as \<^verbatim>\<open>[object Object]\<close> through the
  \<^verbatim>\<open>toString\<close> it inherits, unless a property named \<^verbatim>\<open>toString\<close> hides that
  method; then nothing callable gives a primitive value (the inherited \<^verbatim>\<open>valueOf\<close>
  returns the object itself) and the host throws its \<open>TypeError\<close>. An array prints its
  elements separated by commas, converting each in turn (\<^verbatim>\<open>null\<close> prints as
  nothing), so it throws when one of them does.
\<close>

fun unprintable :: "json \<Rightarrow> bool" where
  "unprintable (JObj ps) = (map_of ps ''toString'' \<noteq> None)"
| "unprintable (JArr xs) = (\<exists>x \<in> set xs. unprintable x)"
| "unprintable v = False"

text \<open>
  The number \<^verbatim>\<open>parseFloat\<close> reads off the printed form of a value. A number prints
  as a literal that reads back as itself. \<^verbatim>\<open>null\<close>, booleans and objects print as
  words that start no literal. In the printed form of an array a comma ends every
  literal, so only the first element is read.
\<close>

fun float_prefix :: "json \<Rightarrow> jsnum" where
  "float_prefix (JNum r) = Fin r"
| "float_prefix (JStr s) = parseFloat_str s"
| "float_prefix (JArr (x # xs)) = float_prefix x"
| "float_prefix v = NaN"

definition parseFloat_json :: "json \<Rightarrow> error + jsnum" where
  "parseFloat_json v = (if unprintable v then Inl TypeError else Inr (float_prefix v))"

definition parseFloat :: "json option \<Rightarrow> error + jsnum" where
  "parseFloat v = (case v of None \<Rightarrow> Inr NaN | Some x \<Rightarrow> parseFloat_json x)"

text \<open>
  \<^verbatim>\<open>parseInt\<close> without a radix, on a string: white space, a sign, an optional
  \<^verbatim>\<open>0x\<close> that selects radix 16, then the longest run of digits, whose value is
  rounded to a number; with no digit the result is \<open>NaN\<close>.
\<close>

definition parseInt_str :: "string \<Rightarrow> jsnum" where
  "parseInt_str s =
     (case take_sign (dropWhile is_space s) of
        (neg, t) \<Rightarrow>
          let hex = (prefix ''0x'' t \<or> prefix ''0X'' t);
              ds = (if hex then takeWhile (\<lambda>c. hex_digit_of c \<noteq> None) (drop 2 t)
                    else takeWhile is_digit t);
              n = (if hex then digits_value 16 hex_digit_of ds else digits_value 10 digit_of ds)
          in if ds = [] then NaN else to_Number (of_int (if neg then - n else n)))"

text \<open>
  On a number, \<^verbatim>\<open>parseInt\<close> reads the number's printed form. From \<open>10\<^sup>-\<^sup>6\<close> up to
  \<open>10\<^sup>2\<^sup>1\<close> that is plain decimal notation, so the integer part is read; outside it is
  exponent notation, of which only the leading digit precedes the point.
\<close>

function lead_digit :: "int \<Rightarrow> int" where
  "lead_digit n = (if n < 10 then n else lead_digit (n div 10))"
  by auto
termination
  by (relation "measure nat") auto

declare lead_digit.simps [simp del]

function ndigits :: "int \<Rightarrow> nat" where
  "ndigits n = (if n < 10 then 1 else Suc (ndigits (n div 10)))"
  by auto
termination
  by (relation "measure nat") auto

declare ndigits.simps [simp del]

definition lead_digit_small :: "rat \<Rightarrow> int" where
  "lead_digit_small a =
     (let x = a * 10 ^ ndigits \<lfloor>1 / a\<rfloor>
      in if 10 \<le> x then \<lfloor>x / 10\<rfloor> else \<lfloor>x\<rfloor>)"

definition parseInt_num :: "rat \<Rightarrow> int" where
  "parseInt_num r =
     (let a = \<bar>r\<bar>;
          n = (if a = 0 then 0
               else if a < 1 / 10 ^ 6 then lead_digit_small a
               else if a < 10 ^ 21 then \<lfloor>a\<rfloor>
               else lead_digit \<lfloor>a\<rfloor>)
      in if r < 0 then - n else n)"

fun int_prefix :: "json \<Rightarrow> jsnum" where
  "int_prefix (JNum r) = Fin (of_int (parseInt_num r))"
| "int_prefix (JStr s) = parseInt_str s"
| "int_prefix (JArr (x # xs)) = int_prefix x"
| "int_prefix v = NaN"

definition parseInt_json :: "json \<Rightarrow> error + jsnum" where
  "parseInt_json v = (if unprintable v then Inl TypeError else Inr (int_prefix v))"

definition parseInt :: "json option \<Rightarrow> error + jsnum" where
  "parseInt v = (case v of None \<Rightarrow> Inr NaN | Some x \<Rightarrow> parseInt_json x)"

text \<open>\<^verbatim>\<open>x || 0\<close> on a number: \<open>NaN\<close> and zero are falsy.\<close>

definition num_or_zero :: "jsnum \<Rightarrow> jsnum" where
  "num_or_zero x = (case x of NaN \<Rightarrow> Fin 0 | _ \<Rightarrow> x)"

subsection \<open>Dates and collation\<close>

text \<open>
  Two services of the host are not fixed by the language: how \<^verbatim>\<open>new Date\<close> reads a
  text, and how \<^verbatim>\<open>localeCompare\<close> orders two strings. They are parameters of the
  model. \<open>Date_parse\<close> gives the time value (milliseconds since the epoch, \<open>None\<close> for
  an invalid date) of a value whose primitive form is a string: a string, or an array or
  object that can be printed. \<open>localeCompare\<close> gives the sign of the comparison of a
  string with the printed form of a value that can be printed.
\<close>

record host =
  Date_parse :: "json \<Rightarrow> int option"
  localeCompare :: "string \<Rightarrow> json \<Rightarrow> int"

text \<open>
  \<^verbatim>\<open>new Date(v)\<close>: a number is truncated and must lie within \<open>8.64 \<times> 10\<^sup>1\<^sup>5\<close>
  milliseconds of the epoch; \<^verbatim>\<open>true\<close> counts as 1, \<^verbatim>\<open>false\<close> and \<^verbatim>\<open>null\<close> as 0.
  An array or an object is converted to a string first, which throws when it cannot be
  printed.
\<close>

definition trunc :: "rat \<Rightarrow> int" where
  "trunc r = (if r < 0 then - \<lfloor>- r\<rfloor> else \<lfloor>r\<rfloor>)"

definition new_Date :: "host \<Rightarrow> json \<Rightarrow> error + int option" where
  "new_Date h v =
     (case v of
        JNum r \<Rightarrow> Inr (if \<bar>r\<bar> \<le> 8640000000000000 then Some (trunc r) else None)
      | JBool b \<Rightarrow> Inr (Some (if b then 1 else 0))
      | JNull \<Rightarrow> Inr (Some 0)
      | _ \<Rightarrow> if unprintable v then Inl TypeError else Inr (Date_parse h v))"

section \<open>The Game model class\<close>

text \<open>
  What \<^verbatim>\<open>releaseDate\<close> can hold: \<^verbatim>\<open>null\<close>, a \<^verbatim>\<open>Date\<close> object with its time
  value (\<open>None\<close> for an invalid date), or, once an entry has been through JSON, the string
  a valid date serialises to. \<open>IsoString t\<close> stands for the ISO-8601 text of the instant
  \<open>t\<close>; it is a string, not a date.
\<close>

datatype release_date = NoDate | DateObj "int option" | IsoString int

text \<open>
  The fields are those the constructor assigns, in its order. Fields the constructor
  passes through keep whatever JSON value the row had; \<open>rating\<close> and \<open>reviewCount\<close>
  are numbers, or \<^verbatim>\<open>null\<close> (\<open>None\<close>) once an infinite one has been through JSON.
\<close>

record game =
  id' :: json
  title :: json
  description :: json
  fullDescription :: json
  genre :: "json list"
  rating :: "jsnum option"
  reviewCount :: "jsnum option"
  thumbnail :: json
  screenshots :: "json list"
  systemRequirements :: json
  officialWebsite :: json
  downloadLinks :: "json list"
  releaseDate :: release_date
  developer :: json
  tags :: "json list"

text \<open>
  The constructor. Reading a property of \<^verbatim>\<open>null\<close> is the host's \<open>TypeError\<close>; any
  other row that lacks a truthy \<^verbatim>\<open>id\<close> or \<^verbatim>\<open>title\<close> is refused by the constructor's
  own check. Of the assignments that follow, three call the host on the row's value and
  throw what it throws: \<^verbatim>\<open>parseFloat(data.rating)\<close>, \<^verbatim>\<open>parseInt(data.reviewCount)\<close>
  and, for a truthy \<^verbatim>\<open>data.releaseDate\<close>, \<^verbatim>\<open>new Date(data.releaseDate)\<close>.
\<close>

definition releaseDate_of :: "host \<Rightarrow> json option \<Rightarrow> error + release_date" where
  "releaseDate_of h v =
     (case v of
        None \<Rightarrow> Inr NoDate
      | Some x \<Rightarrow>
          if truthy x then bind_err (new_Date h x) (\<lambda>d. Inr (DateObj d)) else Inr NoDate)"

definition Game :: "host \<Rightarrow> json \<Rightarrow> error + game" where
  "Game h data =
     (if data = JNull then Inl TypeError
      else
        (case (get_prop data ''id'', get_prop data ''title'') of
           (Some i, Some t) \<Rightarrow>
             if \<not> truthy i \<or> \<not> truthy t then Inl ValidationError
             else
               bind_err (parseFloat (get_prop data ''rating'')) (\<lambda>r.
               bind_err (parseInt (get_prop data ''reviewCount'')) (\<lambda>c.
               bind_err (releaseDate_of h (get_prop data ''releaseDate'')) (\<lambda>d.
               Inr
               \<lparr> id' = i,
                 title = t,
                 description = js_or (get_prop data ''description'') (JStr ''''),
                 fullDescription =
                   js_or (get_prop data ''fullDescription'')
                     (js_or (get_prop data ''description'') (JStr '''')),
                 genre = array_or_empty (get_prop data ''genre''),
                 rating = Some (num_or_zero r),
                 reviewCount = Some (num_or_zero c),
                 thumbnail = js_or (get_prop data ''thumbnail'') (JStr ''images/placeholder.jpg''),
                 screenshots = array_or_empty (get_prop data ''screenshots''),
                 systemRequirements = js_or (get_prop data ''systemRequirements'') (JObj []),
                 officialWebsite = js_or (get_prop data ''officialWebsite'') (JStr ''''),
                 downloadLinks = array_or_empty (get_prop data ''downloadLinks''),
                 releaseDate = d,
                 developer = js_or (get_prop data ''developer'') (JStr ''''),
                 tags = array_or_empty (get_prop data ''tags'') \<rparr>)))
         | _ \<Rightarrow> Inl ValidationError))"

section \<open>GameDataManager: loading and caching\<close>

subsection \<open>The browser around the manager\<close>

text \<open>
  \<^verbatim>\<open>localStorage\<close> holds strings. The timestamp item is kept as the string it is. The
  catalogue item is a JSON text, kept by what it parses to: \<open>Text gs\<close> is the text of an
  array of plain objects with the fields of \<open>gs\<close>, \<open>Unparsable\<close> a text the JSON reader
  rejects. (This is the only item the manager writes under its key.)
\<close>

datatype stored = Unparsable | Text "game list"

text \<open>
  What \<^verbatim>\<open>fetch\<close> meets: no connection, or a response with its status and its body,
  \<open>None\<close> when the body is not JSON.
\<close>

datatype response = Unreachable | Http nat "json option"

text \<open>
  \<open>storage_available\<close> is false when every access to \<^verbatim>\<open>localStorage\<close> throws
  (storage disabled). \<open>now\<close> is \<^verbatim>\<open>Date.now()\<close>. \<open>fetches\<close> counts the calls of
  \<^verbatim>\<open>fetch\<close>; the code never reads it.
\<close>

record world =
  storage_available :: bool
  gameData :: "stored option"
  gameDataTimestamp :: "string option"
  now :: int
  response :: response
  fetches :: nat

record manager =
  games :: "game list"
  isLoaded :: bool

definition cacheTTL :: int where
  "cacheTTL = 24 * 60 * 60 * 1000"

definition new_manager :: manager where
  "new_manager = \<lparr> games = [], isLoaded = False \<rparr>"

subsection \<open>JSON texts\<close>

text \<open>
  What \<^verbatim>\<open>JSON.stringify\<close> keeps of an entry: a valid date becomes its ISO string, an
  invalid one \<^verbatim>\<open>null\<close>; a rating or a review count that is not finite becomes
  \<^verbatim>\<open>null\<close>. The other fields are JSON values already. The methods of the class are
  not written.
\<close>

definition toJSON :: "game \<Rightarrow> game" where
  "toJSON g =
     g \<lparr> rating := (case rating g of Some (Fin r) \<Rightarrow> Some (Fin r) | _ \<Rightarrow> None),
         reviewCount := (case reviewCount g of Some (Fin r) \<Rightarrow> Some (Fin r) | _ \<Rightarrow> None),
         releaseDate :=
           (case releaseDate g of
              DateObj (Some t) \<Rightarrow> IsoString t
            | DateObj None \<Rightarrow> NoDate
            | d \<Rightarrow> d) \<rparr>"

definition JSON_stringify :: "game list \<Rightarrow> stored" where
  "JSON_stringify gs = Text (map toJSON gs)"

definition JSON_parse :: "stored \<Rightarrow> error + game list" where
  "JSON_parse t = (case t of Unparsable \<Rightarrow> Inl JsonError | Text gs \<Rightarrow> Inr gs)"

text \<open>\<^verbatim>\<open>Date.now().toString()\<close> and \<^verbatim>\<open>parseInt(s, 10)\<close>.\<close>

function digits :: "int \<Rightarrow> string" where
  "digits n = (if n < 10 then [char_of (48 + n)] else digits (n div 10) @ [char_of (48 + n mod 10)])"
  by auto
termination
  by (relation "measure nat") auto

declare digits.simps [simp del]

definition toString_int :: "int \<Rightarrow> string" where
  "toString_int n = (if n < 0 then CHR ''-'' # digits (- n) else digits n)"

definition parseInt10 :: "string \<Rightarrow> jsnum" where
  "parseInt10 s =
     (case take_sign (dropWhile is_space s) of
        (neg, t) \<Rightarrow>
          let ds = takeWhile is_digit t; n = digits_value 10 digit_of ds
          in if ds = [] then NaN else to_Number (of_int (if neg then - n else n)))"

subsection \<open>The cache\<close>

definition clearCache :: "world \<Rightarrow> world" where
  "clearCache w =
     (if storage_available w then w \<lparr> gameData := None, gameDataTimestamp := None \<rparr> else w)"

definition setCachedData :: "world \<Rightarrow> game list \<Rightarrow> world" where
  "setCachedData w data =
     (if storage_available w
      then w \<lparr> gameData := Some (JSON_stringify data),
               gameDataTimestamp := Some (toString_int (now w)) \<rparr>
      else w)"

text \<open>
  \<^verbatim>\<open>getCachedData\<close>: \<open>None\<close> is its \<^verbatim>\<open>null\<close>. An absent or empty item is a miss
  that leaves the store alone; an expired record, an unparsable payload and a failing
  store are misses that clear it. A timestamp that does not parse makes the difference
  \<open>NaN\<close>, which is not greater than the time to live.
\<close>

definition expired :: "int \<Rightarrow> jsnum \<Rightarrow> bool" where
  "expired t timestamp = js_gt (js_minus (Fin (of_int t)) timestamp) (Fin (of_int cacheTTL))"

definition getCachedData :: "world \<Rightarrow> game list option \<times> world" where
  "getCachedData w =
     (if \<not> storage_available w then (None, clearCache w)
      else
        (case (gameData w, gameDataTimestamp w) of
           (Some cachedData, Some cacheTimestamp) \<Rightarrow>
             if cacheTimestamp = [] then (None, w)
             else if expired (now w) (parseInt10 cacheTimestamp) then (None, clearCache w)
             else
               (case JSON_parse cachedData of
                  Inl e \<Rightarrow> (None, clearCache w)
                | Inr gs \<Rightarrow> (Some gs, w))
         | _ \<Rightarrow> (None, w)))"

subsection \<open>loadGames and refreshData\<close>

text \<open>
  The three ways out of \<^verbatim>\<open>loadGames\<close>, in the order of the code: the copy in memory,
  when it is loaded and not empty; the cache; the server. Whatever is thrown on the way
  is caught and thrown again as a \<open>GameDataError\<close>, with the manager as it was.
  What the cache returns is an array, which counts as true even when it is empty.
  One call runs at a time.
\<close>

definition fetch_games :: "host \<Rightarrow> world \<Rightarrow> error + game list" where
  "fetch_games h w =
     (case response w of
        Unreachable \<Rightarrow> Inl TransportError
      | Http status body \<Rightarrow>
          if \<not> (200 \<le> status \<and> status \<le> 299) then Inl (HttpError status)
          else
            (case body of
               None \<Rightarrow> Inl JsonError
             | Some data \<Rightarrow>
                 if \<not> truthy data then Inl InvalidFormat
                 else
                   (case get_prop data ''games'' of
                      Some (JArr rows) \<Rightarrow> map_err (Game h) rows
                    | _ \<Rightarrow> Inl InvalidFormat)))"

definition loadGames :: "host \<Rightarrow> world \<Rightarrow> manager \<Rightarrow> (error + game list) \<times> manager \<times> world" where
  "loadGames h w m =
     (if isLoaded m \<and> length (games m) > 0 then (Inr (games m), m, w)
      else
        (case getCachedData w of
           (Some cachedData, w1) \<Rightarrow>
             (Inr cachedData, m \<lparr> games := cachedData, isLoaded := True \<rparr>, w1)
         | (None, w1) \<Rightarrow>
             let w2 = w1 \<lparr> fetches := fetches w1 + 1 \<rparr> in
             (case fetch_games h w2 of
                Inl e \<Rightarrow> (Inl (GameDataError e), m, w2)
              | Inr gs \<Rightarrow>
                  (Inr gs, m \<lparr> games := gs, isLoaded := True \<rparr>, setCachedData w2 gs))))"

definition refreshData :: "host \<Rightarrow> world \<Rightarrow> manager \<Rightarrow> (error + game list) \<times> manager \<times> world" where
  "refreshData h w m = loadGames h (clearCache w) (m \<lparr> isLoaded := False, games := [] \<rparr>)"

section \<open>GameDataManager: searching\<close>

subsection \<open>String tests\<close>

definition includes_str :: "string \<Rightarrow> string \<Rightarrow> bool" where
  "includes_str s t = sublist t s"

definition startsWith :: "string \<Rightarrow> string \<Rightarrow> bool" where
  "startsWith s t = prefix t s"

text \<open>
  \<^verbatim>\<open>s.split(/\s+/)\<close>: the pieces between maximal runs of white space, empty pieces at
  either end included.
\<close>

function split_ws :: "string \<Rightarrow> string list" where
  "split_ws s =
     (let piece = takeWhile (\<lambda>c. \<not> is_space c) s;
          rest = dropWhile (\<lambda>c. \<not> is_space c) s
      in if rest = [] then [piece] else piece # split_ws (dropWhile is_space rest))"
  by auto
termination
proof (relation "measure length", goal_cases)
  case 1
  show ?case by simp
next
  case (2 s piece rest)
  from \<open>rest \<noteq> []\<close> obtain a list where r: "rest = a # list"
    by (cases rest) simp_all
  from \<open>rest \<noteq> []\<close> have "is_space (hd rest)"
    unfolding \<open>rest = dropWhile (\<lambda>c. \<not> is_space c) s\<close> using hd_dropWhile by blast
  then have "is_space a" using r by simp
  then have "length (dropWhile is_space rest) \<le> length list"
    using r by (simp add: length_dropWhile_le)
  moreover have "length rest \<le> length s"
    unfolding \<open>rest = dropWhile (\<lambda>c. \<not> is_space c) s\<close> by (rule length_dropWhile_le)
  ultimately show ?case using r by simp
qed

declare split_ws.simps [simp del]

text \<open>
  \<^verbatim>\<open>v.toLowerCase()\<close> on a field: only strings have the method.
\<close>

definition lower_of :: "json \<Rightarrow> error + string" where
  "lower_of v = (case v of JStr s \<Rightarrow> Inr (toLowerCase s) | _ \<Rightarrow> Inl TypeError)"

subsection \<open>calculateSearchScore\<close>

text \<open>
  The additions of \<^verbatim>\<open>calculateSearchScore\<close>, field by field, on the lower-cased
  values. Each \<^verbatim>\<open>forEach\<close> over the search words is a sum over them.
\<close>

definition title_score :: "string \<Rightarrow> string \<Rightarrow> string list \<Rightarrow> nat" where
  "title_score t searchTerm searchWords =
     (if t = searchTerm then 100
      else if startsWith t searchTerm then 80
      else if includes_str t searchTerm then 60
      else 0)
     + (\<Sum>word\<leftarrow>searchWords. if includes_str t word then 40 else 0)"

definition genre_score :: "string \<Rightarrow> string \<Rightarrow> string list \<Rightarrow> nat" where
  "genre_score g searchTerm searchWords =
     (if g = searchTerm then 70 else if includes_str g searchTerm then 50 else 0)
     + (\<Sum>word\<leftarrow>searchWords. if includes_str g word then 30 else 0)"

definition tag_score :: "string \<Rightarrow> string \<Rightarrow> string list \<Rightarrow> nat" where
  "tag_score t searchTerm searchWords =
     (if t = searchTerm then 60 else if includes_str t searchTerm then 40 else 0)
     + (\<Sum>word\<leftarrow>searchWords. if includes_str t word then 25 else 0)"

definition developer_score :: "string \<Rightarrow> string \<Rightarrow> string list \<Rightarrow> nat" where
  "developer_score d searchTerm searchWords =
     (if includes_str d searchTerm then 35 else 0)
     + (\<Sum>word\<leftarrow>searchWords. if includes_str d word then 20 else 0)"

definition description_score :: "string \<Rightarrow> string \<Rightarrow> string \<Rightarrow> string list \<Rightarrow> nat" where
  "description_score d fd searchTerm searchWords =
     (if includes_str d searchTerm then 25 else 0)
     + (if includes_str fd searchTerm then 20 else 0)
     + (\<Sum>word\<leftarrow>searchWords.
          (if includes_str d word then 15 else 0) + (if includes_str fd word then 10 else 0))"

definition calculateSearchScore :: "game \<Rightarrow> string \<Rightarrow> string list \<Rightarrow> error + nat" where
  "calculateSearchScore g searchTerm searchWords =
     bind_err (lower_of (title g)) (\<lambda>t.
     bind_err (lower_of (description g)) (\<lambda>d.
     bind_err (lower_of (fullDescription g)) (\<lambda>fd.
     bind_err (lower_of (developer g)) (\<lambda>dev.
     bind_err (map_err lower_of (genre g)) (\<lambda>genres.
     bind_err (map_err lower_of (tags g)) (\<lambda>tgs.
       Inr (title_score t searchTerm searchWords
            + (\<Sum>x\<leftarrow>genres. genre_score x searchTerm searchWords)
            + (\<Sum>x\<leftarrow>tgs. tag_score x searchTerm searchWords)
            + developer_score dev searchTerm searchWords
            + description_score d fd searchTerm searchWords)))))))"

subsection \<open>Sorting\<close>

text \<open>
  \<^verbatim>\<open>Array.prototype.sort\<close> with a comparison function is stable, and puts \<open>a\<close> after
  \<open>b\<close> when the function returns a number above zero for them (\<open>NaN\<close> counts as zero).
  On a comparison that orders the entries consistently the outcome is the same for
  every sorting method; the method here is insertion from the right. What a host does
  with an inconsistent comparison is its own choice. A comparison that throws ends the
  sort.
\<close>

fun insert_by :: "('a \<Rightarrow> 'a \<Rightarrow> error + jsnum) \<Rightarrow> 'a \<Rightarrow> 'a list \<Rightarrow> error + 'a list" where
  "insert_by cmp x [] = Inr [x]"
| "insert_by cmp x (y # ys) =
     bind_err (cmp x y) (\<lambda>c.
       if js_gt c (Fin 0) then bind_err (insert_by cmp x ys) (\<lambda>r. Inr (y # r))
       else Inr (x # y # ys))"

fun js_sort :: "('a \<Rightarrow> 'a \<Rightarrow> error + jsnum) \<Rightarrow> 'a list \<Rightarrow> error + 'a list" where
  "js_sort cmp [] = Inr []"
| "js_sort cmp (x # xs) = bind_err (js_sort cmp xs) (insert_by cmp x)"

subsection \<open>searchGames\<close>

text \<open>
  The query is a string or missing (\<open>None\<close>). \<^verbatim>\<open>!query || query.trim() === ''\<close> is
  \<open>blank\<close>.
\<close>

definition blank :: "string option \<Rightarrow> bool" where
  "blank q = (case q of None \<Rightarrow> True | Some s \<Rightarrow> s = [] \<or> trim s = [])"

definition searchTerm_of :: "string \<Rightarrow> string" where
  "searchTerm_of q = trim (toLowerCase q)"

definition searchWords_of :: "string \<Rightarrow> string list" where
  "searchWords_of searchTerm = filter (\<lambda>word. length word > 0) (split_ws searchTerm)"

definition scoredGames :: "game list \<Rightarrow> string \<Rightarrow> error + (game \<times> nat) list" where
  "scoredGames gs q =
     (let searchTerm = searchTerm_of q; searchWords = searchWords_of searchTerm
      in bind_err
           (map_err (\<lambda>g. bind_err (calculateSearchScore g searchTerm searchWords)
                                   (\<lambda>score. Inr (g, score))) gs)
           (\<lambda>items. Inr (filter (\<lambda>item. snd item > 0) items)))"

definition by_score :: "game \<times> nat \<Rightarrow> game \<times> nat \<Rightarrow> error + jsnum" where
  "by_score a b = Inr (Fin (of_nat (snd b) - of_nat (snd a)))"

definition searchGames ::
  "host \<Rightarrow> world \<Rightarrow> manager \<Rightarrow> string option \<Rightarrow> (error + game list) \<times> manager \<times> world" where
  "searchGames h w m q =
     (case loadGames h w m of
        (Inl e, m1, w1) \<Rightarrow> (Inl e, m1, w1)
      | (Inr gs, m1, w1) \<Rightarrow>
          if blank q then (Inr gs, m1, w1)
          else
            (bind_err (scoredGames gs (case q of Some s \<Rightarrow> s | None \<Rightarrow> []))
               (\<lambda>items. bind_err (js_sort by_score items) (\<lambda>sorted. Inr (map fst sorted))),
             m1, w1))"

subsection \<open>sortGames\<close>

text \<open>
  The numbers the comparison subtracts. A \<^verbatim>\<open>null\<close> rating or review count counts
  as 0. The title of the second entry is printed for the collation, which throws when it
  cannot be printed. A missing
  release date is replaced by \<^verbatim>\<open>new Date(0)\<close>, the epoch; a date object counts as its
  time value, \<open>NaN\<close> when invalid; a date string is not a numeric literal and counts as
  \<open>NaN\<close>.
\<close>

definition rating_number :: "jsnum option \<Rightarrow> jsnum" where
  "rating_number r = (case r of None \<Rightarrow> Fin 0 | Some x \<Rightarrow> x)"

definition count_number :: "jsnum option \<Rightarrow> jsnum" where
  "count_number c = (case c of None \<Rightarrow> Fin 0 | Some x \<Rightarrow> x)"

definition date_or_epoch :: "release_date \<Rightarrow> release_date" where
  "date_or_epoch d = (case d of NoDate \<Rightarrow> DateObj (Some 0) | _ \<Rightarrow> d)"

definition date_number :: "release_date \<Rightarrow> jsnum" where
  "date_number d =
     (case d of
        DateObj (Some t) \<Rightarrow> Fin (of_int t)
      | DateObj None \<Rightarrow> NaN
      | IsoString t \<Rightarrow> NaN
      | NoDate \<Rightarrow> Fin 0)"

definition comparison :: "host \<Rightarrow> string \<Rightarrow> string \<Rightarrow> game \<Rightarrow> game \<Rightarrow> error + jsnum" where
  "comparison h sortBy order' a b =
     (if sortBy = ''rating'' then
        Inr (let c = js_minus (rating_number (rating a)) (rating_number (rating b))
             in if order' = ''asc'' then c else js_neg c)
      else if sortBy = ''title'' then
        (case title a of
           JStr s \<Rightarrow>
             if unprintable (title b) then Inl TypeError
             else
               Inr (let c = Fin (of_int (localeCompare h s (title b)))
                    in if order' = ''asc'' then c else js_neg c)
         | _ \<Rightarrow> Inl TypeError)
      else if sortBy = ''releaseDate'' then
        Inr (let dateA = date_or_epoch (releaseDate a);
                 dateB = date_or_epoch (releaseDate b);
                 c = js_minus (date_number dateA) (date_number dateB)
             in if order' = ''asc'' then c else js_neg c)
      else if sortBy = ''reviewCount'' then
        Inr (let c = js_minus (count_number (reviewCount a)) (count_number (reviewCount b))
             in if order' = ''asc'' then c else js_neg c)
      else Inr (Fin 0))"

definition sortGames :: "host \<Rightarrow> game list \<Rightarrow> string \<Rightarrow> string \<Rightarrow> error + game list" where
  "sortGames h gs sortBy order' = js_sort (comparison h sortBy order') gs"

subsection \<open>advancedSearch\<close>

text \<open>
  The filters object. A missing property is \<open>None\<close>; the rating bounds are numbers when
  present.
\<close>

record filters =
  query :: "string option"
  genre' :: "string option"
  minRating :: "jsnum option"
  maxRating :: "jsnum option"
  sortBy :: "string option"
  sortOrder :: "string option"

text \<open>\<^verbatim>\<open>xs.some(g => g.toLowerCase() === wanted.toLowerCase())\<close>, left to right.\<close>

fun genre_some :: "json list \<Rightarrow> string \<Rightarrow> error + bool" where
  "genre_some [] wanted = Inr False"
| "genre_some (g # gs) wanted =
     bind_err (lower_of g) (\<lambda>l. if l = toLowerCase wanted then Inr True else genre_some gs wanted)"

fun filter_err :: "('a \<Rightarrow> error + bool) \<Rightarrow> 'a list \<Rightarrow> error + 'a list" where
  "filter_err p [] = Inr []"
| "filter_err p (x # xs) =
     bind_err (p x) (\<lambda>keep. bind_err (filter_err p xs) (\<lambda>r. Inr (if keep then x # r else r)))"

definition genre_active :: "filters \<Rightarrow> bool" where
  "genre_active f = (case genre' f of None \<Rightarrow> False | Some g \<Rightarrow> g \<noteq> [] \<and> g \<noteq> ''all'')"

definition apply_genre :: "filters \<Rightarrow> game list \<Rightarrow> error + game list" where
  "apply_genre f gs =
     (case genre' f of
        None \<Rightarrow> Inr gs
      | Some g \<Rightarrow>
          if g \<noteq> [] \<and> g \<noteq> ''all'' then filter_err (\<lambda>game. genre_some (genre game) g) gs
          else Inr gs)"

definition apply_minRating :: "filters \<Rightarrow> game list \<Rightarrow> game list" where
  "apply_minRating f gs =
     (case minRating f of
        None \<Rightarrow> gs
      | Some lo \<Rightarrow> filter (\<lambda>game. js_ge (rating_number (rating game)) lo) gs)"

definition apply_maxRating :: "filters \<Rightarrow> game list \<Rightarrow> game list" where
  "apply_maxRating f gs =
     (case maxRating f of
        None \<Rightarrow> gs
      | Some hi \<Rightarrow> filter (\<lambda>game. js_le (rating_number (rating game)) hi) gs)"

definition apply_sort :: "host \<Rightarrow> filters \<Rightarrow> game list \<Rightarrow> error + game list" where
  "apply_sort h f gs =
     (case sortBy f of
        None \<Rightarrow> Inr gs
      | Some s \<Rightarrow>
          if s = [] then Inr gs
          else sortGames h gs s
                 (case sortOrder f of None \<Rightarrow> ''desc'' | Some ord \<Rightarrow> if ord = [] then ''desc'' else ord))"

definition advancedSearch ::
  "host \<Rightarrow> world \<Rightarrow> manager \<Rightarrow> filters \<Rightarrow> (error + game list) \<times> manager \<times> world" where
  "advancedSearch h w m f =
     (case loadGames h w m of
        (Inl e, m1, w1) \<Rightarrow> (Inl e, m1, w1)
      | (Inr loaded, m1, w1) \<Rightarrow>
          (case (if \<not> blank (query f) then searchGames h w1 m1 (query f) else (Inr loaded, m1, w1)) of
             (Inl e, m2, w2) \<Rightarrow> (Inl e, m2, w2)
           | (Inr found, m2, w2) \<Rightarrow>
               (bind_err (apply_genre f found) (\<lambda>g1.
                  apply_sort h f (apply_maxRating f (apply_minRating f g1))),
                m2, w2)))"

section \<open>Debouncer\<close>

text \<open>
  The timers of the host, made explicit: a clock in milliseconds, the handle the next
  \<^verbatim>\<open>setTimeout\<close> returns, the timers that are set (handle, time due, arguments), and
  the record of the calls of the wrapped function (time, arguments). The wrapped
  function itself is opaque: a call of it is an entry of the record.
\<close>

record 'a timers =
  clock :: nat
  next_handle :: nat
  pending :: "(nat \<times> nat \<times> 'a) list"
  calls :: "(nat \<times> 'a) list"

record debouncer =
  delay :: nat
  timeoutId :: "nat option"

definition new_Debouncer :: "nat \<Rightarrow> debouncer" where
  "new_Debouncer d = \<lparr> delay = d, timeoutId = None \<rparr>"

definition no_timers :: "'a timers" where
  "no_timers = \<lparr> clock = 0, next_handle = 1, pending = [], calls = [] \<rparr>"

definition setTimeout :: "'a timers \<Rightarrow> nat \<Rightarrow> 'a \<Rightarrow> nat \<times> 'a timers" where
  "setTimeout env d args =
     (next_handle env,
      env \<lparr> next_handle := next_handle env + 1,
            pending := pending env @ [(next_handle env, clock env + d, args)] \<rparr>)"

definition clearTimeout :: "'a timers \<Rightarrow> nat option \<Rightarrow> 'a timers" where
  "clearTimeout env handle =
     env \<lparr> pending := filter (\<lambda>t. Some (fst t) \<noteq> handle) (pending env) \<rparr>"

text \<open>
  Time passing up to \<open>t\<close>: the timers due by then run in the order of their due times
  and are gone; each run is a call of the wrapped function with the timer's arguments.
\<close>

definition advance :: "'a timers \<Rightarrow> nat \<Rightarrow> 'a timers" where
  "advance env t =
     (let due = filter (\<lambda>p. fst (snd p) \<le> t) (pending env)
      in env \<lparr> clock := max (clock env) t,
               pending := filter (\<lambda>p. \<not> fst (snd p) \<le> t) (pending env),
               calls := calls env @ map (\<lambda>p. (fst (snd p), snd (snd p))) (sort_key (\<lambda>p. fst (snd p)) due) \<rparr>)"

definition execute :: "debouncer \<Rightarrow> 'a timers \<Rightarrow> 'a \<Rightarrow> debouncer \<times> 'a timers" where
  "execute d env args =
     (case setTimeout (clearTimeout env (timeoutId d)) (delay d) args of
        (handle, env') \<Rightarrow> (d \<lparr> timeoutId := Some handle \<rparr>, env'))"

definition cancel :: "debouncer \<Rightarrow> 'a timers \<Rightarrow> debouncer \<times> 'a timers" where
  "cancel d env = (d, clearTimeout env (timeoutId d))"

text \<open>
  A session: \<^verbatim>\<open>execute\<close> is called with the given values at the given times, in order;
  a timer due at the very time of a call runs before the call. Then time passes up to
  \<open>t_end\<close>.
\<close>

fun run_calls :: "debouncer \<Rightarrow> 'a timers \<Rightarrow> (nat \<times> 'a) list \<Rightarrow> debouncer \<times> 'a timers" where
  "run_calls d env [] = (d, env)"
| "run_calls d env ((t, v) # cs) =
     (case execute d (advance env t) v of (d', env') \<Rightarrow> run_calls d' env' cs)"

definition debounced :: "nat \<Rightarrow> (nat \<times> 'a) list \<Rightarrow> nat \<Rightarrow> (nat \<times> 'a) list" where
  "debounced d cs t_end = calls (advance (snd (run_calls (new_Debouncer d) no_timers cs)) t_end)"

text \<open>
  The contract in the words of the specification: a call fires, one delay later and with
  its own value, exactly when no further call arrives before the delay has elapsed.
\<close>

fun settled :: "nat \<Rightarrow> (nat \<times> 'a) list \<Rightarrow> nat \<Rightarrow> (nat \<times> 'a) list" where
  "settled d [] t_end = []"
| "settled d [(t, v)] t_end = (if t + d \<le> t_end then [(t + d, v)] else [])"
| "settled d ((t, v) # (t', v') # cs) t_end =
     (if t + d \<le> t' then [(t + d, v)] else []) @ settled d ((t', v') # cs) t_end"

section \<open>Example data\<close>

text \<open>
  A host stripped to the least: it reads no date text and ranks all strings equal. It
  stands in for the host where a statement is evaluated on data that uses neither
  service.
\<close>

definition bare_host :: host where
  "bare_host = \<lparr> Date_parse = (\<lambda>v. None), localeCompare = (\<lambda>s v. 0) \<rparr>"

text \<open>
  "Absent or empty", for an \<^verbatim>\<open>id\<close> or a \<^verbatim>\<open>title\<close>: not there, \<^verbatim>\<open>null\<close>,
  \<^verbatim>\<open>false\<close>, the number 0, or the empty string.
\<close>

definition absent_or_empty :: "json option \<Rightarrow> bool" where
  "absent_or_empty v \<longleftrightarrow>
     v = None \<or> v = Some JNull \<or> v = Some (JBool False) \<or> v = Some (JNum 0) \<or> v = Some (JStr [])"

text \<open>
  A field of a row that the host cannot turn into a string: an object with a property
  named \<^verbatim>\<open>toString\<close>, or an array that holds one.
\<close>

definition unprintable_field :: "json \<Rightarrow> string \<Rightarrow> bool" where
  "unprintable_field data k = (case get_prop data k of None \<Rightarrow> False | Some v \<Rightarrow> unprintable v)"

definition row_odd_rating :: json where
  "row_odd_rating =
     JObj [(''id'', JStr ''a''), (''title'', JStr ''t''),
           (''rating'', JObj [(''toString'', JNum 1)])]"

text \<open>A row whose \<^verbatim>\<open>id\<close> is the number 0.\<close>

definition row_id_zero :: json where
  "row_id_zero = JObj [(''id'', JNum 0), (''title'', JStr ''Zero'')]"

definition row_space_raiders :: json where
  "row_space_raiders =
     JObj [(''id'', JStr ''a''), (''title'', JStr ''Space Raiders''),
           (''genre'', JArr [JStr ''Action'']), (''rating'', JNum (9 / 2))]"

definition row_out_of_range :: json where
  "row_out_of_range =
     JObj [(''id'', JStr ''x''), (''title'', JStr ''Overrated''),
           (''rating'', JNum 7), (''reviewCount'', JNum (- 5))]"

definition entry_out_of_range :: game where
  "entry_out_of_range =
     \<lparr> id' = JStr ''x'', title = JStr ''Overrated'', description = JStr '''',
       fullDescription = JStr '''', genre = [], rating = Some (Fin 7), reviewCount = Some (Fin (- 5)),
       thumbnail = JStr ''images/placeholder.jpg'', screenshots = [],
       systemRequirements = JObj [], officialWebsite = JStr '''', downloadLinks = [],
       releaseDate = NoDate, developer = JStr '''', tags = [] \<rparr>"

text \<open>The ranges the data model gives the quality signal.\<close>

definition rating_in_range :: "game \<Rightarrow> bool" where
  "rating_in_range g = (case rating g of Some (Fin r) \<Rightarrow> 0 \<le> r \<and> r \<le> 5 | _ \<Rightarrow> False)"

definition reviewCount_in_range :: "game \<Rightarrow> bool" where
  "reviewCount_in_range g =
     (case reviewCount g of Some (Fin r) \<Rightarrow> 0 \<le> r \<and> of_int \<lfloor>r\<rfloor> = r | _ \<Rightarrow> False)"

text \<open>
  A review count as the parser can give it: a whole number or an infinity.
\<close>

definition whole_or_infinite :: "jsnum \<Rightarrow> bool" where
  "whole_or_infinite x =
     (case x of NaN \<Rightarrow> False | Fin r \<Rightarrow> of_int \<lfloor>r\<rfloor> = r | _ \<Rightarrow> True)"

text \<open>
  Inputs that are not numeric: nothing, \<^verbatim>\<open>null\<close>, a boolean, an object, an empty
  array, or a string that has no digit in it and does not contain the word
  \<^verbatim>\<open>Infinity\<close>.
\<close>

definition wordy :: "string \<Rightarrow> bool" where
  "wordy s \<longleftrightarrow> (\<forall>c \<in> set s. \<not> is_digit c) \<and> \<not> sublist ''Infinity'' s"

definition non_numeric :: "json option \<Rightarrow> bool" where
  "non_numeric v =
     (case v of
        None \<Rightarrow> True
      | Some JNull \<Rightarrow> True
      | Some (JBool b) \<Rightarrow> True
      | Some (JObj ps) \<Rightarrow> True
      | Some (JArr xs) \<Rightarrow> xs = []
      | Some (JStr s) \<Rightarrow> wordy s
      | Some (JNum r) \<Rightarrow> False)"

definition row_unrated :: json where
  "row_unrated =
     JObj [(''id'', JStr ''u''), (''title'', JStr ''Unrated''), (''rating'', JStr ''n/a'')]"

definition entry_unrated :: game where
  "entry_unrated =
     \<lparr> id' = JStr ''u'', title = JStr ''Unrated'', description = JStr '''',
       fullDescription = JStr '''', genre = [], rating = Some (Fin 0), reviewCount = Some (Fin 0),
       thumbnail = JStr ''images/placeholder.jpg'', screenshots = [],
       systemRequirements = JObj [], officialWebsite = JStr '''', downloadLinks = [],
       releaseDate = NoDate, developer = JStr '''', tags = [] \<rparr>"

text \<open>
  The freshness test of \<^verbatim>\<open>getCachedData\<close>, for the record of a store and a time of
  reading: there is a timestamp, and the time to live has not run out since.
\<close>

definition fresh_at :: "world \<Rightarrow> int \<Rightarrow> bool" where
  "fresh_at w t =
     (case gameDataTimestamp w of
        None \<Rightarrow> False
      | Some ts \<Rightarrow> ts \<noteq> [] \<and> \<not> expired t (parseInt10 ts))"

text \<open>The browser some time on: the clock and the server have moved.\<close>

definition later :: "world \<Rightarrow> int \<Rightarrow> response \<Rightarrow> world" where
  "later w t r = w \<lparr> now := t, response := r \<rparr>"


text \<open>
  A first visit, then the page is loaded again: a new manager over the store the first
  visit left.
\<close>

definition reload :: "host \<Rightarrow> world \<Rightarrow> (error + game list) \<times> manager \<times> world" where
  "reload h w = loadGames h (snd (snd (loadGames h w new_manager))) new_manager"



definition world_first_visit :: world where
  "world_first_visit =
     \<lparr> storage_available = True, gameData = None, gameDataTimestamp = None,
       now = 1700000000000,
       response = Http 200 (Some (JObj [(''games'', JArr [row_out_of_range])])),
       fetches = 0 \<rparr>"

definition world_after_first_visit :: world where
  "world_after_first_visit =
     world_first_visit
       \<lparr> gameData := Some (Text [entry_out_of_range]),
         gameDataTimestamp := Some ''1700000000000'',
         fetches := 1 \<rparr>"

definition manager_loaded :: manager where
  "manager_loaded = \<lparr> games = [entry_out_of_range], isLoaded = True \<rparr>"

definition world_offline :: world where
  "world_offline = later world_after_first_visit 1700000005000 Unreachable"




definition row_dated :: json where
  "row_dated =
     JObj [(''id'', JStr ''a''), (''title'', JStr ''Space Raiders''),
           (''releaseDate'', JStr ''2020-01-01'')]"

definition entry_dated :: "host \<Rightarrow> game" where
  "entry_dated h =
     \<lparr> id' = JStr ''a'', title = JStr ''Space Raiders'', description = JStr '''',
       fullDescription = JStr '''', genre = [], rating = Some (Fin 0), reviewCount = Some (Fin 0),
       thumbnail = JStr ''images/placeholder.jpg'', screenshots = [],
       systemRequirements = JObj [], officialWebsite = JStr '''', downloadLinks = [],
       releaseDate = DateObj (Date_parse h (JStr ''2020-01-01'')),
       developer = JStr '''', tags = [] \<rparr>"

definition world_dated :: world where
  "world_dated =
     \<lparr> storage_available = True, gameData = None, gameDataTimestamp = None,
       now = 1700000000000,
       response = Http 200 (Some (JObj [(''games'', JArr [row_dated])])),
       fetches = 0 \<rparr>"

text \<open>
  A genre match in the words of the specification: the entry's genres contain one that
  equals the wanted genre up to case.
\<close>

definition genre_matches :: "game \<Rightarrow> string \<Rightarrow> bool" where
  "genre_matches g wanted =
     list_ex (\<lambda>x. case x of JStr s \<Rightarrow> toLowerCase s = toLowerCase wanted | _ \<Rightarrow> False)
       (genre g)"

definition entry_space_raiders :: game where
  "entry_space_raiders =
     \<lparr> id' = JStr ''a'', title = JStr ''Space Raiders'', description = JStr '''',
       fullDescription = JStr '''', genre = [JStr ''Action''], rating = Some (Fin (9 / 2)),
       reviewCount = Some (Fin 0), thumbnail = JStr ''images/placeholder.jpg'', screenshots = [],
       systemRequirements = JObj [], officialWebsite = JStr '''', downloadLinks = [],
       releaseDate = NoDate, developer = JStr '''', tags = [] \<rparr>"

definition entry_puzzle_quest :: game where
  "entry_puzzle_quest =
     \<lparr> id' = JStr ''b'', title = JStr ''Puzzle Quest'', description = JStr '''',
       fullDescription = JStr '''', genre = [JStr ''Puzzle''], rating = Some (Fin 3),
       reviewCount = Some (Fin 0), thumbnail = JStr ''images/placeholder.jpg'', screenshots = [],
       systemRequirements = JObj [], officialWebsite = JStr '''', downloadLinks = [],
       releaseDate = NoDate, developer = JStr '''', tags = [] \<rparr>"

definition manager_two_games :: manager where
  "manager_two_games = \<lparr> games = [entry_space_raiders, entry_puzzle_quest], isLoaded = True \<rparr>"

definition no_filters :: filters where
  "no_filters =
     \<lparr> query = None, genre' = None, minRating = None, maxRating = None,
       sortBy = None, sortOrder = None \<rparr>"

definition filters_action_3_to_5 :: filters where
  "filters_action_3_to_5 =
     no_filters \<lparr> genre' := Some ''action'', minRating := Some (Fin 3), maxRating := Some (Fin 5) \<rparr>"

definition filters_inverted :: filters where
  "filters_inverted = no_filters \<lparr> minRating := Some (Fin 4), maxRating := Some (Fin 2) \<rparr>"

text \<open>
  The typing of the data model, as far as searching reads it: the four text fields are
  strings, and so is every genre and every tag.
\<close>

definition is_text :: "json \<Rightarrow> bool" where
  "is_text v = (case v of JStr s \<Rightarrow> True | _ \<Rightarrow> False)"

definition well_typed :: "game \<Rightarrow> bool" where
  "well_typed g \<longleftrightarrow>
     is_text (title g) \<and> is_text (description g) \<and> is_text (fullDescription g)
     \<and> is_text (developer g) \<and> list_all is_text (genre g) \<and> list_all is_text (tags g)"

definition lower_text :: "json \<Rightarrow> string" where
  "lower_text v = (case v of JStr s \<Rightarrow> toLowerCase s | _ \<Rightarrow> [])"

text \<open>
  The relevance score of an entry against a query, as \<^verbatim>\<open>searchGames\<close> computes it: the
  score of the trimmed lower-case query and its words.
\<close>

definition relevance :: "game \<Rightarrow> string \<Rightarrow> nat" where
  "relevance g q =
     (case calculateSearchScore g (searchTerm_of q) (searchWords_of (searchTerm_of q)) of
        Inl e \<Rightarrow> 0
      | Inr n \<Rightarrow> n)"

text \<open>
  A field that does not match the query: it contains neither the whole term nor any of
  its words.
\<close>

definition silent :: "string \<Rightarrow> string \<Rightarrow> bool" where
  "silent s q \<longleftrightarrow>
     \<not> includes_str s (searchTerm_of q)
     \<and> list_all (\<lambda>word. \<not> includes_str s word) (searchWords_of (searchTerm_of q))"

definition title_only :: "game \<Rightarrow> string \<Rightarrow> bool" where
  "title_only g q \<longleftrightarrow>
     list_all (\<lambda>x. silent (lower_text x) q) (genre g)
     \<and> list_all (\<lambda>x. silent (lower_text x) q) (tags g)
     \<and> silent (lower_text (developer g)) q
     \<and> silent (lower_text (description g)) q
     \<and> silent (lower_text (fullDescription g)) q"

definition fullDescription_only :: "game \<Rightarrow> string \<Rightarrow> bool" where
  "fullDescription_only g q \<longleftrightarrow>
     silent (lower_text (title g)) q
     \<and> list_all (\<lambda>x. silent (lower_text x) q) (genre g)
     \<and> list_all (\<lambda>x. silent (lower_text x) q) (tags g)
     \<and> silent (lower_text (developer g)) q
     \<and> silent (lower_text (description g)) q"

definition entry_space :: game where
  "entry_space = entry_space_raiders \<lparr> id' := JStr ''s'', title := JStr ''Space'' \<rparr>"

definition entry_told :: game where
  "entry_told =
     entry_puzzle_quest
       \<lparr> id' := JStr ''t'', fullDescription := JStr ''Slide tiles through outer space.'' \<rparr>"

text \<open>
  Entries whose release date is absent or a valid date, and the time value the
  comparison gives them: an absent date counts as the epoch, 0.
\<close>

definition dated_or_absent :: "game \<Rightarrow> bool" where
  "dated_or_absent g =
     (case releaseDate g of NoDate \<Rightarrow> True | DateObj (Some t) \<Rightarrow> True | _ \<Rightarrow> False)"

definition date_key :: "game \<Rightarrow> int" where
  "date_key g = (case releaseDate g of DateObj (Some t) \<Rightarrow> t | _ \<Rightarrow> 0)"

text \<open>An entry released on 31 December 1969, one day before the epoch, and one of 2020.\<close>

definition entry_1969 :: game where
  "entry_1969 =
     entry_space_raiders
       \<lparr> id' := JStr ''c'', title := JStr ''Classic'', releaseDate := DateObj (Some (- 86400000)) \<rparr>"

definition entry_2020 :: game where
  "entry_2020 =
     entry_space_raiders
       \<lparr> id' := JStr ''n'', title := JStr ''Newcomer'',
         releaseDate := DateObj (Some 1577836800000) \<rparr>"

text \<open>The scenario of the specification for the debounced input: three keystrokes.\<close>

definition keystrokes :: "(nat \<times> string) list" where
  "keystrokes = [(0, ''a''), (100, ''ab''), (200, ''abc'')]"

section \<open>Properties of the rounding\<close>

text \<open>
  A whole number rounds to a whole number or to an infinity, and a whole number below
  \<open>2\<^sup>5\<^sup>3\<close> in size rounds to itself.
\<close>

lemma round_half_even_of_int: "round_half_even (of_int k) = k"
  by (simp add: round_half_even_def)

lemma scale2_neg_int:
  assumes "e < 0"
  shows "scale2 (of_int (round_half_even (scale2 (of_int k) (- e)))) e = of_int k"
proof -
  have 1: "scale2 (of_int k) (- e) = of_int (k * 2 ^ nat (- e))"
    using assms by (simp add: scale2_def)
  show ?thesis unfolding 1 round_half_even_of_int using assms by (simp add: scale2_def)
qed

lemma scale2_zero_int:
  "scale2 (of_int (round_half_even (scale2 (of_int k) (- 0)))) 0 = of_int k"
  by (simp add: scale2_def round_half_even_of_int)

lemma scale2_pos_whole:
  assumes "0 \<le> e"
  shows "of_int \<lfloor>scale2 (of_int q) e\<rfloor> = scale2 (of_int q) e"
proof -
  have "scale2 (of_int q) e = of_int (q * 2 ^ nat e)" using assms by (simp add: scale2_def)
  then show ?thesis by (simp only: floor_of_int)
qed

lemma to_Number_of_int_whole: "whole_or_infinite (to_Number (of_int n))"
proof (cases "n = 0")
  case True
  then show ?thesis by (simp add: to_Number_def whole_or_infinite_def)
next
  case False
  define e where "e = max (floor_log2 \<bar>of_int n :: rat\<bar> - 52) (- 1074)"
  define v where "v = scale2 (of_int (round_half_even (scale2 \<bar>of_int n :: rat\<bar> (- e)))) e"
  have w: "of_int \<lfloor>v\<rfloor> = v"
  proof (cases "0 \<le> e")
    case True
    then show ?thesis unfolding v_def by (rule scale2_pos_whole)
  next
    case False
    then have "e < 0" by simp
    from scale2_neg_int[OF this, of "\<bar>n\<bar>"] have "v = of_int \<bar>n\<bar>" unfolding v_def by simp
    then show ?thesis by (simp only: floor_of_int)
  qed
  have w': "of_int \<lfloor>- v\<rfloor> = - v"
  proof -
    have "- v = of_int (- \<lfloor>v\<rfloor>)" by (simp only: of_int_minus w)
    then show ?thesis by (metis floor_of_int)
  qed
  have "to_Number (of_int n) =
          (if 2 ^ 1024 \<le> v then (if (of_int n :: rat) < 0 then NegInf else PosInf)
           else Fin (if (of_int n :: rat) < 0 then - v else v))"
    using False unfolding to_Number_def v_def e_def by (simp add: Let_def)
  then show ?thesis using w w' by (simp add: whole_or_infinite_def)
qed

lemma bit_length_le: "n < 2 ^ k \<Longrightarrow> bit_length n \<le> int k"
proof (induction k arbitrary: n)
  case 0
  then show ?case by (subst bit_length.simps) simp
next
  case (Suc k)
  have "n div 2 < 2 ^ k" using Suc.prems by simp
  from Suc.IH[OF this] show ?case by (subst bit_length.simps) simp
qed

lemma to_Number_exact:
  assumes "\<bar>n\<bar> < 2 ^ 53"
  shows "to_Number (of_int n) = Fin (of_int n)"
proof (cases "n = 0")
  case True
  then show ?thesis by (simp add: to_Number_def)
next
  case False
  define e where "e = max (floor_log2 \<bar>of_int n :: rat\<bar> - 52) (- 1074)"
  define v where "v = scale2 (of_int (round_half_even (scale2 \<bar>of_int n :: rat\<bar> (- e)))) e"
  have one: "(1::rat) \<le> \<bar>of_int n\<bar>"
  proof -
    have "1 \<le> \<bar>n\<bar>" using False by simp
    then have "(1::rat) \<le> of_int \<bar>n\<bar>" by (simp only: of_int_1_le_iff)
    then show ?thesis by simp
  qed
  have fl: "\<lfloor>\<bar>of_int n :: rat\<bar>\<rfloor> = \<bar>n\<bar>" by (metis floor_of_int of_int_abs)
  have "floor_log2 \<bar>of_int n :: rat\<bar> = bit_length \<bar>n\<bar> - 1"
    using one by (simp add: floor_log2_def fl)
  moreover have "bit_length \<bar>n\<bar> \<le> 53" using bit_length_le[OF assms] by simp
  ultimately have e0: "e \<le> 0" unfolding e_def by simp
  have v: "v = of_int \<bar>n\<bar>"
  proof (cases "e = 0")
    case True
    show ?thesis unfolding v_def True using scale2_zero_int[of "\<bar>n\<bar>"] by simp
  next
    case False
    then have "e < 0" using e0 by simp
    from scale2_neg_int[OF this, of "\<bar>n\<bar>"] show ?thesis unfolding v_def by simp
  qed
  have small: "\<not> (2 ^ 1024 \<le> v)"
  proof -
    have "\<bar>n\<bar> < 2 ^ 1024" using assms by (rule less_trans) simp
    then have "(of_int \<bar>n\<bar> :: rat) < of_int (2 ^ 1024)" by (simp only: of_int_less_iff)
    then show ?thesis unfolding v by simp
  qed
  have "to_Number (of_int n) =
          (if 2 ^ 1024 \<le> v then (if (of_int n :: rat) < 0 then NegInf else PosInf)
           else Fin (if (of_int n :: rat) < 0 then - v else v))"
    using False unfolding to_Number_def v_def e_def by (simp add: Let_def)
  then show ?thesis using small unfolding v by (auto simp: abs_if)
qed

section \<open>Properties of the Game constructor\<close>

lemma unprintable_truthy: "unprintable v \<Longrightarrow> truthy v"
  by (cases v) auto

lemma parseFloat_Inl: "parseFloat v = Inl e \<longleftrightarrow> e = TypeError \<and> (\<exists>x. v = Some x \<and> unprintable x)"
  by (auto simp: parseFloat_def parseFloat_json_def split: option.splits)

lemma parseInt_Inl: "parseInt v = Inl e \<longleftrightarrow> e = TypeError \<and> (\<exists>x. v = Some x \<and> unprintable x)"
  by (auto simp: parseInt_def parseInt_json_def split: option.splits)

lemma new_Date_Inl: "new_Date h x = Inl e \<longleftrightarrow> e = TypeError \<and> unprintable x"
  by (cases x) (auto simp: new_Date_def)

lemma new_Date_Inr: "new_Date h x = Inr d \<Longrightarrow> \<not> unprintable x"
  by (cases x) (auto simp: new_Date_def split: if_splits)

lemma parseFloat_Inr: "parseFloat (Some x) = Inr y \<Longrightarrow> \<not> unprintable x"
  by (auto simp: parseFloat_def parseFloat_json_def split: if_splits)

lemma parseInt_Inr: "parseInt (Some x) = Inr y \<Longrightarrow> \<not> unprintable x"
  by (auto simp: parseInt_def parseInt_json_def split: if_splits)

lemma releaseDate_of_Inl:
  "releaseDate_of h v = Inl e \<longleftrightarrow> e = TypeError \<and> (\<exists>x. v = Some x \<and> unprintable x)"
  by (auto simp: releaseDate_of_def bind_err_def new_Date_Inl unprintable_truthy
      dest: new_Date_Inr split: option.splits sum.splits)

lemma releaseDate_of_Inr: "releaseDate_of h (Some x) = Inr d \<Longrightarrow> \<not> unprintable x"
  using releaseDate_of_Inl[of h "Some x" TypeError]
  by (cases "unprintable x") auto

lemma unprintable_field_iff:
  "unprintable_field data k \<longleftrightarrow> (\<exists>x. get_prop data k = Some x \<and> unprintable x)"
  by (auto simp: unprintable_field_def split: option.splits)

lemma absent_or_empty_falsy:
  "absent_or_empty v \<longleftrightarrow> (case v of None \<Rightarrow> True | Some i \<Rightarrow> \<not> truthy i)"
proof (cases v)
  case None
  then show ?thesis by (simp add: absent_or_empty_def)
next
  case (Some x)
  then show ?thesis by (cases x) (auto simp: absent_or_empty_def)
qed

lemma Game_fails_iff:
  "data \<noteq> JNull \<Longrightarrow>
   Game h data = Inl ValidationError \<longleftrightarrow>
     absent_or_empty (get_prop data ''id'') \<or> absent_or_empty (get_prop data ''title'')"
  by (auto simp: Game_def bind_err_def absent_or_empty_falsy parseFloat_Inl parseInt_Inl
      releaseDate_of_Inl split: option.splits sum.splits)

lemma Game_throws_iff:
  "data \<noteq> JNull \<Longrightarrow>
   Game h data = Inl TypeError \<longleftrightarrow>
     \<not> absent_or_empty (get_prop data ''id'') \<and> \<not> absent_or_empty (get_prop data ''title'')
     \<and> (unprintable_field data ''rating'' \<or> unprintable_field data ''reviewCount''
        \<or> unprintable_field data ''releaseDate'')"
  by (auto simp: Game_def bind_err_def absent_or_empty_falsy parseFloat_Inl parseInt_Inl
      releaseDate_of_Inl unprintable_field_iff
      dest: parseFloat_Inr parseInt_Inr releaseDate_of_Inr split: option.splits sum.splits)

lemma Game_Inl: "Game h data = Inl e \<Longrightarrow> e = ValidationError \<or> e = TypeError"
  by (auto simp: Game_def bind_err_def parseFloat_Inl parseInt_Inl releaseDate_of_Inl
      split: option.splits sum.splits if_splits)

lemma Game_Inr_fields:
  "Game h data = Inr g \<Longrightarrow>
   get_prop data ''id'' = Some (id' g) \<and> get_prop data ''title'' = Some (title g)
   \<and> truthy (id' g) \<and> truthy (title g)"
  by (auto simp: Game_def bind_err_def split: option.splits sum.splits if_splits)

lemma Game_Inr_numbers:
  "Game h data = Inr g \<Longrightarrow>
   \<exists>x c. parseFloat (get_prop data ''rating'') = Inr x
        \<and> parseInt (get_prop data ''reviewCount'') = Inr c
        \<and> rating g = Some (num_or_zero x) \<and> reviewCount g = Some (num_or_zero c)"
  by (auto simp: Game_def bind_err_def split: option.splits sum.splits if_splits)

text \<open>
  C4, as the code has it. A row that is \<^verbatim>\<open>null\<close> makes the constructor throw the
  host's \<open>TypeError\<close>. For any other row, construction fails with the validation error
  exactly when the \<^verbatim>\<open>id\<close> or the \<^verbatim>\<open>title\<close> is absent or empty; it fails with a
  \<open>TypeError\<close> exactly when both are there and the \<^verbatim>\<open>rating\<close>, the
  \<^verbatim>\<open>reviewCount\<close> or the \<^verbatim>\<open>releaseDate\<close> cannot be turned into a string; it
  fails in no other way; and in every remaining case it succeeds, whatever the other
  fields hold, and the entry's \<^verbatim>\<open>id\<close> and \<^verbatim>\<open>title\<close> are the values of the row.
\<close>

theorem Game_construction:
  "(data = JNull \<longrightarrow> Game h data = Inl TypeError)
   \<and> (data \<noteq> JNull \<longrightarrow>
        (Game h data = Inl ValidationError \<longleftrightarrow>
           absent_or_empty (get_prop data ''id'') \<or> absent_or_empty (get_prop data ''title''))
      \<and> (Game h data = Inl TypeError \<longleftrightarrow>
           \<not> absent_or_empty (get_prop data ''id'') \<and> \<not> absent_or_empty (get_prop data ''title'')
           \<and> (unprintable_field data ''rating'' \<or> unprintable_field data ''reviewCount''
              \<or> unprintable_field data ''releaseDate''))
      \<and> (\<forall>e. Game h data = Inl e \<longrightarrow> e = ValidationError \<or> e = TypeError)
      \<and> (\<not> absent_or_empty (get_prop data ''id'') \<and> \<not> absent_or_empty (get_prop data ''title'')
          \<and> \<not> unprintable_field data ''rating'' \<and> \<not> unprintable_field data ''reviewCount''
          \<and> \<not> unprintable_field data ''releaseDate''
          \<longrightarrow> (\<exists>g. Game h data = Inr g
                   \<and> Some (id' g) = get_prop data ''id''
                   \<and> Some (title g) = get_prop data ''title'')))"
proof (intro conjI impI allI)
  assume "data = JNull"
  then show "Game h data = Inl TypeError" by (simp add: Game_def)
next
  assume "data \<noteq> JNull"
  then show "Game h data = Inl ValidationError \<longleftrightarrow>
          absent_or_empty (get_prop data ''id'') \<or> absent_or_empty (get_prop data ''title'')"
    by (rule Game_fails_iff)
next
  assume "data \<noteq> JNull"
  then show "Game h data = Inl TypeError \<longleftrightarrow>
           \<not> absent_or_empty (get_prop data ''id'') \<and> \<not> absent_or_empty (get_prop data ''title'')
           \<and> (unprintable_field data ''rating'' \<or> unprintable_field data ''reviewCount''
              \<or> unprintable_field data ''releaseDate'')"
    by (rule Game_throws_iff)
next
  fix e assume "Game h data = Inl e"
  then show "e = ValidationError \<or> e = TypeError" by (rule Game_Inl)
next
  assume n: "data \<noteq> JNull"
    and ok: "\<not> absent_or_empty (get_prop data ''id'') \<and> \<not> absent_or_empty (get_prop data ''title'')
          \<and> \<not> unprintable_field data ''rating'' \<and> \<not> unprintable_field data ''reviewCount''
          \<and> \<not> unprintable_field data ''releaseDate''"
  have 1: "Game h data \<noteq> Inl ValidationError" using ok by (simp add: Game_fails_iff[OF n])
  have 2: "Game h data \<noteq> Inl TypeError" using ok by (simp add: Game_throws_iff[OF n])
  obtain g where g: "Game h data = Inr g"
    using 1 2 Game_Inl[of h data] by (cases "Game h data") auto
  show "\<exists>g. Game h data = Inr g \<and> Some (id' g) = get_prop data ''id''
               \<and> Some (title g) = get_prop data ''title''"
    using Game_Inr_fields[OF g] g by auto
qed

text \<open>
  A row with an \<^verbatim>\<open>id\<close>, a \<^verbatim>\<open>title\<close> and the rating \<^verbatim>\<open>{"toString": 1}\<close> is not
  constructed: \<^verbatim>\<open>parseFloat\<close> throws on the rating.
\<close>

theorem unprintable_rating_counterexample:
  "get_prop row_odd_rating ''id'' = Some (JStr ''a'')
   \<and> get_prop row_odd_rating ''title'' = Some (JStr ''t'')
   \<and> \<not> absent_or_empty (get_prop row_odd_rating ''id'')
   \<and> \<not> absent_or_empty (get_prop row_odd_rating ''title'')
   \<and> Game bare_host row_odd_rating = Inl TypeError"
  by code_simp

theorem Game_construction_witness:
  "Game bare_host JNull = Inl TypeError
   \<and> row_space_raiders \<noteq> JNull
   \<and> \<not> absent_or_empty (get_prop row_space_raiders ''id'')
   \<and> \<not> absent_or_empty (get_prop row_space_raiders ''title'')
   \<and> \<not> unprintable_field row_space_raiders ''rating''
   \<and> \<not> unprintable_field row_space_raiders ''reviewCount''
   \<and> \<not> unprintable_field row_space_raiders ''releaseDate''
   \<and> (\<exists>g. Game bare_host row_space_raiders = Inr g
          \<and> id' g = JStr ''a'' \<and> title g = JStr ''Space Raiders'')
   \<and> row_id_zero \<noteq> JNull
   \<and> absent_or_empty (get_prop row_id_zero ''id'')
   \<and> Game bare_host row_id_zero = Inl ValidationError
   \<and> row_odd_rating \<noteq> JNull
   \<and> unprintable_field row_odd_rating ''rating''
   \<and> Game bare_host row_odd_rating = Inl TypeError"
proof -
  have a: "row_space_raiders \<noteq> JNull" by (simp add: row_space_raiders_def)
  have i: "get_prop row_space_raiders ''id'' = Some (JStr ''a'')"
    by (simp add: row_space_raiders_def)
  have t: "get_prop row_space_raiders ''title'' = Some (JStr ''Space Raiders'')"
    by (simp add: row_space_raiders_def)
  have d: "\<not> absent_or_empty (get_prop row_space_raiders ''id'')"
    by (simp add: i absent_or_empty_def)
  have e: "\<not> absent_or_empty (get_prop row_space_raiders ''title'')"
    by (simp add: t absent_or_empty_def)
  have u: "\<not> unprintable_field row_space_raiders ''rating''"
    "\<not> unprintable_field row_space_raiders ''reviewCount''"
    "\<not> unprintable_field row_space_raiders ''releaseDate''"
    by (simp_all add: unprintable_field_def row_space_raiders_def)
  have z: "row_id_zero \<noteq> JNull" by (simp add: row_id_zero_def)
  have z1: "absent_or_empty (get_prop row_id_zero ''id'')"
    by (simp add: row_id_zero_def absent_or_empty_def)
  have o: "row_odd_rating \<noteq> JNull" by (simp add: row_odd_rating_def)
  have o1: "\<not> absent_or_empty (get_prop row_odd_rating ''id'')"
    "\<not> absent_or_empty (get_prop row_odd_rating ''title'')"
    by (simp_all add: row_odd_rating_def absent_or_empty_def)
  have o2: "unprintable_field row_odd_rating ''rating''"
    by (simp add: unprintable_field_def row_odd_rating_def)
  show ?thesis
    using Game_construction[of JNull bare_host]
      Game_construction[of row_space_raiders bare_host]
      Game_construction[of row_id_zero bare_host]
      Game_construction[of row_odd_rating bare_host]
      a d e u z z1 o o1 o2
    by (auto simp: i t)
qed

lemma Game_row_out_of_range: "Game bare_host row_out_of_range = Inr entry_out_of_range"
  by code_simp

lemma Game_row_unrated: "Game bare_host row_unrated = Inr entry_unrated"
  by code_simp

lemma takeWhile_digit_wordy: "\<forall>c \<in> set t. \<not> is_digit c \<Longrightarrow> takeWhile is_digit t = []"
  by (cases t) auto

lemma suffix_take_sign: "suffix (snd (take_sign s)) s"
  by (cases s) (auto simp: suffix_Cons)

lemma wordy_tail:
  assumes "wordy s" "take_sign (dropWhile is_space s) = (neg, t)"
  shows "(\<forall>c \<in> set t. \<not> is_digit c) \<and> \<not> prefix ''Infinity'' t"
proof -
  have "suffix t (dropWhile is_space s)"
    using suffix_take_sign[of "dropWhile is_space s"] assms(2) by simp
  then have suf: "suffix t s" using suffix_dropWhile suffix_order.trans by blast
  then have "set t \<subseteq> set s" by (rule set_mono_suffix)
  moreover have "prefix ''Infinity'' t \<Longrightarrow> sublist ''Infinity'' s"
    using suf sublist_altdef' by blast
  ultimately show ?thesis using assms(1) by (auto simp: wordy_def)
qed

lemma parseFloat_str_wordy: "wordy s \<Longrightarrow> parseFloat_str s = NaN"
proof -
  assume w: "wordy s"
  obtain neg t where nt: "take_sign (dropWhile is_space s) = (neg, t)" by (cases "take_sign (dropWhile is_space s)")
  note T = wordy_tail[OF w nt]
  have 1: "\<not> prefix ''Infinity'' t" using T by simp
  have 2: "takeWhile is_digit t = []" using T by (simp add: takeWhile_digit_wordy)
  have 3: "dropWhile is_digit t = t" using T by (cases t) auto
  have 4: "(case t of [] \<Rightarrow> [] | c # r \<Rightarrow> if c = CHR ''.'' then takeWhile is_digit r else []) = []"
    using T by (cases t) (auto simp: takeWhile_digit_wordy)
  show ?thesis unfolding parseFloat_str_def nt using 1 2 3 4 by (simp add: Let_def)
qed

lemma parseInt_str_wordy: "wordy s \<Longrightarrow> parseInt_str s = NaN"
proof -
  assume w: "wordy s"
  obtain neg t where nt: "take_sign (dropWhile is_space s) = (neg, t)" by (cases "take_sign (dropWhile is_space s)")
  note T = wordy_tail[OF w nt]
  have d0: "is_digit CHR ''0''" by (simp add: is_digit_def digit_of_def)
  have 1: "\<not> prefix ''0x'' t" "\<not> prefix ''0X'' t" using T d0 by (cases t; auto)+
  have 2: "takeWhile is_digit t = []" using T by (simp add: takeWhile_digit_wordy)
  show ?thesis unfolding parseInt_str_def nt using 1 2 by (simp add: Let_def)
qed

lemma parseFloat_non_numeric: "non_numeric v \<Longrightarrow> parseFloat v = Inr x \<Longrightarrow> x = NaN"
  by (auto simp: non_numeric_def parseFloat_def parseFloat_json_def parseFloat_str_wordy
      split: option.splits json.splits if_splits)

lemma parseInt_non_numeric: "non_numeric v \<Longrightarrow> parseInt v = Inr x \<Longrightarrow> x = NaN"
  by (auto simp: non_numeric_def parseInt_def parseInt_json_def parseInt_str_wordy
      split: option.splits json.splits if_splits)

lemma parseInt_str_whole: "parseInt_str s = NaN \<or> whole_or_infinite (parseInt_str s)"
  by (auto simp: parseInt_str_def Let_def to_Number_of_int_whole split: prod.splits)

lemma int_prefix_whole: "int_prefix v = NaN \<or> whole_or_infinite (int_prefix v)"
proof (induction v rule: int_prefix.induct)
  case (1 r)
  show ?case by (simp add: whole_or_infinite_def)
next
  case (2 s)
  show ?case using parseInt_str_whole[of s] by simp
qed simp_all

lemma num_or_zero_whole:
  "x = NaN \<or> whole_or_infinite x \<Longrightarrow> whole_or_infinite (num_or_zero x)"
  by (cases x) (auto simp: num_or_zero_def whole_or_infinite_def)

lemma parseInt_whole: "parseInt v = Inr c \<Longrightarrow> whole_or_infinite (num_or_zero c)"
proof -
  assume a: "parseInt v = Inr c"
  have "c = NaN \<or> whole_or_infinite c"
  proof (cases v)
    case None
    then show ?thesis using a by (simp add: parseInt_def)
  next
    case (Some x)
    then have "c = int_prefix x" using a by (simp add: parseInt_def parseInt_json_def split: if_splits)
    then show ?thesis using int_prefix_whole[of x] by simp
  qed
  then show ?thesis by (rule num_or_zero_whole)
qed

lemma parseInt_num_of_int: "\<bar>i\<bar> < 10 ^ 21 \<Longrightarrow> parseInt_num (of_int i) = i"
proof -
  assume b: "\<bar>i\<bar> < 10 ^ 21"
  have lt: "\<bar>of_int i :: rat\<bar> < 10 ^ 21"
  proof -
    have "(of_int \<bar>i\<bar> :: rat) < of_int (10 ^ 21)" using b by (simp only: of_int_less_iff)
    then show ?thesis by simp
  qed
  have ge: "i \<noteq> 0 \<Longrightarrow> \<not> \<bar>of_int i :: rat\<bar> < 1 / 10 ^ 6"
  proof -
    assume "i \<noteq> 0"
    then have "1 \<le> \<bar>i\<bar>" by simp
    then have "(1::rat) \<le> of_int \<bar>i\<bar>" by (simp only: of_int_1_le_iff)
    then show ?thesis by simp
  qed
  have fl: "\<lfloor>\<bar>of_int i :: rat\<bar>\<rfloor> = \<bar>i\<bar>"
    by (metis floor_of_int of_int_abs)
  show ?thesis using lt ge fl by (auto simp: parseInt_num_def Let_def)
qed

text \<open>
  C5, as the code has it. Whenever an entry is constructed, its rating is a number and
  never \<open>NaN\<close>, and its review count is a whole number or an infinity, never \<open>NaN\<close>.
  An input that is not numeric gives 0 for either. A numeric rating is taken as it is,
  and so is an integral review count below \<open>10\<^sup>2\<^sup>1\<close> in size: nothing confines the
  rating to 0..5 or the review count to the non-negative integers.
\<close>

theorem Game_rating_reviewCount:
  assumes "Game h data = Inr g"
  shows "(\<exists>x. rating g = Some x \<and> x \<noteq> NaN)
       \<and> (\<exists>c. reviewCount g = Some c \<and> whole_or_infinite c)
       \<and> (\<forall>r. get_prop data ''rating'' = Some (JNum r) \<longrightarrow> rating g = Some (Fin r))
       \<and> (non_numeric (get_prop data ''rating'') \<longrightarrow> rating g = Some (Fin 0))
       \<and> (\<forall>i. get_prop data ''reviewCount'' = Some (JNum (of_int i)) \<and> \<bar>i\<bar> < 10 ^ 21
              \<longrightarrow> reviewCount g = Some (Fin (of_int i)))
       \<and> (non_numeric (get_prop data ''reviewCount'') \<longrightarrow> reviewCount g = Some (Fin 0))"
proof -
  from Game_Inr_numbers[OF assms] obtain x c
    where pf: "parseFloat (get_prop data ''rating'') = Inr x"
      and pi: "parseInt (get_prop data ''reviewCount'') = Inr c"
      and r: "rating g = Some (num_or_zero x)"
      and c: "reviewCount g = Some (num_or_zero c)"
    by blast
  have 1: "\<exists>x. rating g = Some x \<and> x \<noteq> NaN"
    unfolding r by (simp add: num_or_zero_def split: jsnum.splits)
  have 2: "\<exists>c. reviewCount g = Some c \<and> whole_or_infinite c"
    unfolding c using parseInt_whole[OF pi] by simp
  have 3: "\<forall>r. get_prop data ''rating'' = Some (JNum r) \<longrightarrow> rating g = Some (Fin r)"
    using pf unfolding r by (auto simp: parseFloat_def parseFloat_json_def num_or_zero_def)
  have 4: "non_numeric (get_prop data ''rating'') \<longrightarrow> rating g = Some (Fin 0)"
    using parseFloat_non_numeric[OF _ pf] unfolding r by (auto simp: num_or_zero_def)
  have 5: "\<forall>i. get_prop data ''reviewCount'' = Some (JNum (of_int i)) \<and> \<bar>i\<bar> < 10 ^ 21
              \<longrightarrow> reviewCount g = Some (Fin (of_int i))"
    using pi unfolding c
    by (auto simp: parseInt_def parseInt_json_def num_or_zero_def parseInt_num_of_int)
  have 6: "non_numeric (get_prop data ''reviewCount'') \<longrightarrow> reviewCount g = Some (Fin 0)"
    using parseInt_non_numeric[OF _ pi] unfolding c by (auto simp: num_or_zero_def)
  show ?thesis using 1 2 3 4 5 6 by blast
qed

text \<open>
  A row with rating 7 and review count \<open>-5\<close> is constructed with exactly these values.
\<close>

theorem rating_range_counterexample:
  "Game bare_host row_out_of_range = Inr entry_out_of_range
   \<and> \<not> rating_in_range entry_out_of_range
   \<and> \<not> reviewCount_in_range entry_out_of_range"
  by (simp add: Game_row_out_of_range)
    (simp add: entry_out_of_range_def rating_in_range_def reviewCount_in_range_def)

theorem Game_rating_reviewCount_witness:
  "Game bare_host row_out_of_range = Inr entry_out_of_range
   \<and> get_prop row_out_of_range ''rating'' = Some (JNum 7)
   \<and> rating entry_out_of_range = Some (Fin 7)
   \<and> get_prop row_out_of_range ''reviewCount'' = Some (JNum (of_int (- 5)))
   \<and> reviewCount entry_out_of_range = Some (Fin (of_int (- 5)))
   \<and> Game bare_host row_unrated = Inr entry_unrated
   \<and> non_numeric (get_prop row_unrated ''rating'')
   \<and> rating entry_unrated = Some (Fin 0)
   \<and> non_numeric (get_prop row_unrated ''reviewCount'')
   \<and> reviewCount entry_unrated = Some (Fin 0)"
proof -
  have a: "get_prop row_out_of_range ''rating'' = Some (JNum 7)"
    by (simp add: row_out_of_range_def)
  have b: "get_prop row_out_of_range ''reviewCount'' = Some (JNum (of_int (- 5)))"
    by (simp add: row_out_of_range_def)
  have c: "non_numeric (get_prop row_unrated ''rating'')"
    by code_simp
  have d: "non_numeric (get_prop row_unrated ''reviewCount'')"
    by (simp add: row_unrated_def non_numeric_def)
  have e: "\<bar>- 5 :: int\<bar> < 10 ^ 21" by simp
  have f: "reviewCount entry_out_of_range = Some (Fin (of_int (- 5)))"
    using Game_rating_reviewCount[OF Game_row_out_of_range] b e by blast
  have g: "rating entry_out_of_range = Some (Fin 7)"
    using Game_rating_reviewCount[OF Game_row_out_of_range] a by blast
  have h: "rating entry_unrated = Some (Fin 0)" "reviewCount entry_unrated = Some (Fin 0)"
    using Game_rating_reviewCount[OF Game_row_unrated] c d by blast+
  show ?thesis
    using a b c d f g h Game_row_out_of_range Game_row_unrated by blast
qed

section \<open>Properties of loading and caching\<close>

lemma getCachedData_keeps:
  "getCachedData w = (r, w1) \<Longrightarrow>
   fetches w1 = fetches w \<and> storage_available w1 = storage_available w
   \<and> now w1 = now w \<and> response w1 = response w"
  by (auto simp: getCachedData_def clearCache_def split: if_splits option.splits sum.splits)

lemma getCachedData_miss_cleared:
  "getCachedData w = (None, w1) \<Longrightarrow> gameData w = None \<Longrightarrow> gameDataTimestamp w = None \<Longrightarrow> w1 = w"
  by (auto simp: getCachedData_def clearCache_def split: if_splits option.splits sum.splits)


lemma getCachedData_fresh:
  "storage_available w \<Longrightarrow> gameData w = Some (Text gs) \<Longrightarrow> fresh_at w (now w) \<Longrightarrow>
   getCachedData w = (Some gs, w)"
  by (auto simp: getCachedData_def fresh_at_def JSON_parse_def split: option.splits)


lemma loadGames_Inl:
  "loadGames h w m = (Inl e, m1, w1) \<Longrightarrow>
   m1 = m \<and> (\<exists>c. e = GameDataError c) \<and> fetches w1 = fetches w + 1
   \<and> (\<exists>w0. getCachedData w = (None, w0) \<and> w1 = w0 \<lparr> fetches := fetches w0 + 1 \<rparr>)"
  by (auto simp: loadGames_def Let_def dest: getCachedData_keeps split: if_splits prod.splits option.splits sum.splits)




lemma fresh_at_later [simp]: "fresh_at (later w t r) t' = fresh_at w t'"
  by (simp add: fresh_at_def later_def)

lemma loadGames_memo:
  "isLoaded m \<Longrightarrow> games m \<noteq> [] \<Longrightarrow> loadGames h w m = (Inr (games m), m, w)"
  by (simp add: loadGames_def)








lemma refresh_offline:
  "refreshData bare_host world_offline manager_loaded
     = (Inl (GameDataError TransportError), new_manager,
        world_offline \<lparr> gameData := None, gameDataTimestamp := None, fetches := 2 \<rparr>)"
  by code_simp

text \<open>
  C2, as the code has it. \<^verbatim>\<open>refreshData\<close> empties the copy in memory and the cache
  before it loads. When the load then fails, the error is a \<open>GameDataError\<close> and the
  manager is left with no catalogue: the list is empty, the loaded flag is down, and the
  store, when available, holds no record.
\<close>

theorem refreshData_failure:
  assumes "refreshData h w m = (Inl e, m', w')"
  shows "games m' = [] \<and> \<not> isLoaded m' \<and> (\<exists>c. e = GameDataError c)
       \<and> (storage_available w \<longrightarrow> gameData w' = None \<and> gameDataTimestamp w' = None)"
proof -
  let ?w = "clearCache w" and ?m = "m \<lparr> isLoaded := False, games := [] \<rparr>"
  have l: "loadGames h ?w ?m = (Inl e, m', w')" using assms by (simp add: refreshData_def)
  from loadGames_Inl[OF l] obtain w0 where
    m: "m' = ?m" and e: "\<exists>c. e = GameDataError c"
    and g: "getCachedData ?w = (None, w0)" and w': "w' = w0 \<lparr> fetches := fetches w0 + 1 \<rparr>"
    by auto
  have "storage_available w \<longrightarrow> gameData w' = None \<and> gameDataTimestamp w' = None"
  proof
    assume "storage_available w"
    then have c: "gameData ?w = None" "gameDataTimestamp ?w = None"
      by (simp_all add: clearCache_def)
    have "w0 = ?w" using getCachedData_miss_cleared[OF g c] .
    then show "gameData w' = None \<and> gameDataTimestamp w' = None" using c w' by simp
  qed
  then show ?thesis using m e by simp
qed

theorem refreshData_failure_witness:
  "refreshData bare_host world_offline manager_loaded
     = (Inl (GameDataError TransportError), new_manager,
        world_offline \<lparr> gameData := None, gameDataTimestamp := None, fetches := 2 \<rparr>)
   \<and> storage_available world_offline
   \<and> games new_manager = [] \<and> \<not> isLoaded new_manager
   \<and> gameData (world_offline \<lparr> gameData := None, gameDataTimestamp := None, fetches := 2 \<rparr>) = None"
proof -
  have s: "storage_available world_offline"
    by (simp add: world_offline_def later_def world_after_first_visit_def world_first_visit_def)
  show ?thesis using refreshData_failure[OF refresh_offline] refresh_offline s by simp
qed

text \<open>
  A manager holding one entry refreshes while the server is out of reach: the refresh
  fails and the manager holds nothing.
\<close>

theorem refresh_clears_catalog_counterexample:
  "games manager_loaded = [entry_out_of_range]
   \<and> fst (refreshData bare_host world_offline manager_loaded) = Inl (GameDataError TransportError)
   \<and> games (fst (snd (refreshData bare_host world_offline manager_loaded))) = []"
  by (simp add: refresh_offline) (simp add: manager_loaded_def new_manager_def)


lemma loadGames_network:
  assumes "\<not> (isLoaded m \<and> games m \<noteq> [])" "getCachedData w = (None, w1)"
    and "fetch_games h (w1 \<lparr> fetches := fetches w1 + 1 \<rparr>) = Inr gs"
  shows "loadGames h w m
           = (Inr gs, m \<lparr> games := gs, isLoaded := True \<rparr>,
              setCachedData (w1 \<lparr> fetches := fetches w1 + 1 \<rparr>) gs)"
  using assms by (auto simp: loadGames_def Let_def)

lemma loadGames_cached:
  assumes "\<not> (isLoaded m \<and> games m \<noteq> [])" "getCachedData w = (Some gs, w1)"
  shows "loadGames h w m = (Inr gs, m \<lparr> games := gs, isLoaded := True \<rparr>, w1)"
  using assms by (auto simp: loadGames_def)

lemma Game_row_dated: "Game h row_dated = Inr (entry_dated h)"
  by (simp add: Game_def row_dated_def entry_dated_def js_or_def array_or_empty_def
      parseFloat_def parseInt_def num_or_zero_def releaseDate_of_def new_Date_def bind_err_def)

lemma stamp_text: "toString_int 1700000000000 = ''1700000000000''"
  by code_simp

lemma parse_stamp: "parseInt10 ''1700000000000'' = Fin 1700000000000"
  by code_simp

lemma load_dated:
  "loadGames h world_dated new_manager
     = (Inr [entry_dated h], \<lparr> games = [entry_dated h], isLoaded = True \<rparr>,
        world_dated \<lparr> fetches := 1, gameData := Some (Text [toJSON (entry_dated h)]),
                      gameDataTimestamp := Some ''1700000000000'' \<rparr>)"
proof -
  have n: "\<not> (isLoaded new_manager \<and> games new_manager \<noteq> [])" by (simp add: new_manager_def)
  have g: "getCachedData world_dated = (None, world_dated)"
    by (simp add: getCachedData_def world_dated_def)
  have f: "fetch_games h (world_dated \<lparr> fetches := fetches world_dated + 1 \<rparr>) = Inr [entry_dated h]"
    by (simp add: fetch_games_def world_dated_def Game_row_dated)
  have m: "new_manager \<lparr> games := [entry_dated h], isLoaded := True \<rparr>
             = \<lparr> games = [entry_dated h], isLoaded = True \<rparr>"
    by (simp add: new_manager_def)
  have w: "setCachedData (world_dated \<lparr> fetches := fetches world_dated + 1 \<rparr>) [entry_dated h]
             = world_dated \<lparr> fetches := 1, gameData := Some (Text [toJSON (entry_dated h)]),
                      gameDataTimestamp := Some ''1700000000000'' \<rparr>"
    by (simp add: setCachedData_def JSON_stringify_def world_dated_def stamp_text)
  show ?thesis using loadGames_network[OF n g f] unfolding m w .
qed

lemma reload_dated:
  "reload h world_dated
     = (Inr [toJSON (entry_dated h)], \<lparr> games = [toJSON (entry_dated h)], isLoaded = True \<rparr>,
        world_dated \<lparr> fetches := 1, gameData := Some (Text [toJSON (entry_dated h)]),
                      gameDataTimestamp := Some ''1700000000000'' \<rparr>)"
proof -
  let ?w = "world_dated \<lparr> fetches := 1, gameData := Some (Text [toJSON (entry_dated h)]),
                      gameDataTimestamp := Some ''1700000000000'' \<rparr>"
  have n: "\<not> (isLoaded new_manager \<and> games new_manager \<noteq> [])" by (simp add: new_manager_def)
  have g: "getCachedData ?w = (Some [toJSON (entry_dated h)], ?w)"
  proof (rule getCachedData_fresh)
    show "storage_available ?w" by (simp add: world_dated_def)
    show "gameData ?w = Some (Text [toJSON (entry_dated h)])" by simp
    show "fresh_at ?w (now ?w)"
      by (simp add: fresh_at_def parse_stamp expired_def js_gt_def cacheTTL_def world_dated_def)
  qed
  have m: "new_manager \<lparr> games := [toJSON (entry_dated h)], isLoaded := True \<rparr>
             = \<lparr> games = [toJSON (entry_dated h)], isLoaded = True \<rparr>"
    by (simp add: new_manager_def)
  have "reload h world_dated = loadGames h ?w new_manager"
    unfolding reload_def load_dated by simp
  then show ?thesis using loadGames_cached[OF n g, of h] unfolding m by simp
qed

text \<open>
  C1, on the code. A first visit fetches a catalogue of one row dated
  \<^verbatim>\<open>"2020-01-01"\<close> and returns the constructed entry, whose release date is a date
  object; it writes the serialised entry, not the row, to the store. The next page load
  is served from that record without a fetch, and what it returns is the stored object
  as parsed: its release date is a string, or \<^verbatim>\<open>null\<close> where the host could not read
  the date, and in either case not the date object of the first visit.
\<close>

theorem cache_served_entry_differs:
  "fst (loadGames h world_dated new_manager) = Inr [entry_dated h]
   \<and> fetches (snd (snd (loadGames h world_dated new_manager))) = 1
   \<and> gameData (snd (snd (loadGames h world_dated new_manager))) = Some (Text [toJSON (entry_dated h)])
   \<and> fst (reload h world_dated) = Inr [toJSON (entry_dated h)]
   \<and> fetches (snd (snd (reload h world_dated))) = 1
   \<and> releaseDate (entry_dated h) = DateObj (Date_parse h (JStr ''2020-01-01''))
   \<and> releaseDate (toJSON (entry_dated h))
       = (case Date_parse h (JStr ''2020-01-01'') of None \<Rightarrow> NoDate | Some t \<Rightarrow> IsoString t)
   \<and> fst (reload h world_dated) \<noteq> fst (loadGames h world_dated new_manager)"
proof -
  have r: "releaseDate (toJSON (entry_dated h))
       = (case Date_parse h (JStr ''2020-01-01'') of None \<Rightarrow> NoDate | Some t \<Rightarrow> IsoString t)"
    by (simp add: toJSON_def entry_dated_def split: option.splits)
  have d: "releaseDate (entry_dated h) = DateObj (Date_parse h (JStr ''2020-01-01''))"
    by (simp add: entry_dated_def)
  have "releaseDate (toJSON (entry_dated h)) \<noteq> releaseDate (entry_dated h)"
    unfolding r d by (simp split: option.splits)
  then have ne: "toJSON (entry_dated h) \<noteq> entry_dated h" by auto
  show ?thesis using r d ne by (simp add: load_dated reload_dated)
qed

section \<open>Properties of the query pipeline\<close>

lemma bind_err_Inr:
  "bind_err r f = Inr y \<longleftrightarrow> (\<exists>x. r = Inr x \<and> f x = Inr y)"
  by (cases r) (auto simp: bind_err_def)

lemma genre_some_True:
  "genre_some xs wanted = Inr True \<Longrightarrow>
   \<exists>x \<in> set xs. \<exists>s. x = JStr s \<and> toLowerCase s = toLowerCase wanted"
proof (induction xs)
  case Nil
  then show ?case by simp
next
  case (Cons x xs)
  then show ?case
    by (cases x) (auto simp: bind_err_def lower_of_def split: if_splits)
qed

lemma filter_err_set:
  "filter_err p xs = Inr r \<Longrightarrow> set r \<subseteq> {x \<in> set xs. p x = Inr True}"
proof (induction xs arbitrary: r)
  case Nil
  then show ?case by simp
next
  case (Cons x xs)
  from Cons.prems obtain keep r' where
    k: "p x = Inr keep" and r': "filter_err p xs = Inr r'" and r: "r = (if keep then x # r' else r')"
    by (auto simp: bind_err_Inr)
  from Cons.IH[OF r'] k r show ?case by auto
qed

lemma insert_by_mset:
  "insert_by cmp x ys = Inr r \<Longrightarrow> mset r = add_mset x (mset ys)"
proof (induction ys arbitrary: r)
  case Nil
  then show ?case by auto
next
  case (Cons y ys)
  from Cons.prems obtain c where c: "cmp x y = Inr c" by (auto simp: bind_err_Inr)
  show ?case
  proof (cases "js_gt c (Fin 0)")
    case True
    with Cons.prems c obtain r' where "insert_by cmp x ys = Inr r'" "r = y # r'"
      by (auto simp: bind_err_def split: sum.splits)
    with Cons.IH show ?thesis by simp
  next
    case False
    with Cons.prems c show ?thesis by (auto simp: bind_err_def)
  qed
qed

lemma js_sort_mset: "js_sort cmp xs = Inr r \<Longrightarrow> mset r = mset xs"
proof (induction xs arbitrary: r)
  case Nil
  then show ?case by simp
next
  case (Cons x xs)
  from Cons.prems obtain s where s: "js_sort cmp xs = Inr s" and r: "insert_by cmp x s = Inr r"
    by (auto simp: bind_err_Inr)
  from insert_by_mset[OF r] Cons.IH[OF s] show ?case by simp
qed

lemma js_sort_set: "js_sort cmp xs = Inr r \<Longrightarrow> set r = set xs"
  by (metis js_sort_mset set_mset_mset)

lemma apply_genre_sound:
  assumes "apply_genre f gs = Inr r"
  shows "set r \<subseteq> set gs"
    and "\<forall>g \<in> set r. \<forall>wanted. genre' f = Some wanted \<and> genre_active f \<longrightarrow> genre_matches g wanted"
proof -
  show "set r \<subseteq> set gs"
    using assms filter_err_set[of "\<lambda>game. genre_some (genre game) w" gs r for w]
    by (auto simp: apply_genre_def split: option.splits if_splits)
  show "\<forall>g \<in> set r. \<forall>wanted. genre' f = Some wanted \<and> genre_active f \<longrightarrow> genre_matches g wanted"
  proof (intro ballI allI impI)
    fix g wanted
    assume g: "g \<in> set r" and a: "genre' f = Some wanted \<and> genre_active f"
    then have "filter_err (\<lambda>game. genre_some (genre game) wanted) gs = Inr r"
      using assms by (auto simp: apply_genre_def genre_active_def)
    from filter_err_set[OF this] g have "genre_some (genre g) wanted = Inr True" by auto
    then show "genre_matches g wanted"
      using genre_some_True[of "genre g" wanted]
      by (force simp: genre_matches_def list_ex_iff)
  qed
qed

lemma apply_sort_set: "apply_sort h f gs = Inr r \<Longrightarrow> set r = set gs"
  by (auto simp: apply_sort_def sortGames_def dest: js_sort_set split: option.splits if_splits)

lemma js_gt_no_between: "js_gt lo hi \<Longrightarrow> js_ge x lo \<Longrightarrow> js_le x hi \<Longrightarrow> False"
  by (cases lo; cases hi; cases x) (auto simp: js_gt_def js_ge_def)

lemma rating_filters_sound:
  "set (apply_maxRating f (apply_minRating f gs))
     = {g \<in> set gs. (\<forall>lo. minRating f = Some lo \<longrightarrow> js_ge (rating_number (rating g)) lo)
                  \<and> (\<forall>hi. maxRating f = Some hi \<longrightarrow> js_le (rating_number (rating g)) hi)}"
  by (auto simp: apply_maxRating_def apply_minRating_def split: option.splits)

lemma advancedSearch_Inr:
  assumes "advancedSearch h w m f = (Inr res, m', w')"
  obtains found g1 where "apply_genre f found = Inr g1"
    and "apply_sort h f (apply_maxRating f (apply_minRating f g1)) = Inr res"
  using assms
  by (auto simp: advancedSearch_def bind_err_Inr split: prod.splits sum.splits if_splits)

text \<open>
  C6. Every entry \<^verbatim>\<open>advancedSearch\<close> returns passes every filter that is set: a genre
  filter that is set (a string that is not empty) and not \<^verbatim>\<open>all\<close> is matched, up to
  case, by one of the entry's genres; the rating is at least the lower bound, if there is one, and at most the upper
  bound, if there is one. With the lower bound above the upper one nothing is returned.
\<close>

theorem advancedSearch_filters:
  assumes "advancedSearch h w m f = (Inr res, m', w')"
  shows "(\<forall>g \<in> set res.
            (\<forall>wanted. genre' f = Some wanted \<and> genre_active f \<longrightarrow> genre_matches g wanted)
          \<and> (\<forall>lo. minRating f = Some lo \<longrightarrow> js_ge (rating_number (rating g)) lo)
          \<and> (\<forall>hi. maxRating f = Some hi \<longrightarrow> js_le (rating_number (rating g)) hi))
       \<and> (\<forall>lo hi. minRating f = Some lo \<and> maxRating f = Some hi \<and> js_gt lo hi \<longrightarrow> res = [])"
proof -
  from assms obtain found g1 where
    g1: "apply_genre f found = Inr g1"
    and s: "apply_sort h f (apply_maxRating f (apply_minRating f g1)) = Inr res"
    by (rule advancedSearch_Inr)
  have set_res: "set res = set (apply_maxRating f (apply_minRating f g1))"
    using s by (rule apply_sort_set)
  have sub: "set res \<subseteq> set g1" unfolding set_res rating_filters_sound by auto
  have 1: "\<forall>g \<in> set res. \<forall>wanted. genre' f = Some wanted \<and> genre_active f \<longrightarrow> genre_matches g wanted"
    using apply_genre_sound(2)[OF g1] sub by blast
  have 2: "\<forall>g \<in> set res. (\<forall>lo. minRating f = Some lo \<longrightarrow> js_ge (rating_number (rating g)) lo)
          \<and> (\<forall>hi. maxRating f = Some hi \<longrightarrow> js_le (rating_number (rating g)) hi)"
    unfolding set_res rating_filters_sound by simp
  have 3: "\<forall>lo hi. minRating f = Some lo \<and> maxRating f = Some hi \<and> js_gt lo hi \<longrightarrow> res = []"
  proof (intro allI impI)
    fix lo hi
    assume a: "minRating f = Some lo \<and> maxRating f = Some hi \<and> js_gt lo hi"
    have "set res = {}"
    proof (rule ccontr)
      assume "set res \<noteq> {}"
      then obtain g where "g \<in> set res" by (cases res) auto
      with 2 a have "js_ge (rating_number (rating g)) lo" "js_le (rating_number (rating g)) hi"
        by auto
      with a show False using js_gt_no_between by blast
    qed
    then show "res = []" by simp
  qed
  show ?thesis using 1 2 3 by blast
qed

lemma search_action_3_to_5:
  "advancedSearch bare_host world_offline manager_two_games filters_action_3_to_5
     = (Inr [entry_space_raiders], manager_two_games, world_offline)"
  by code_simp

lemma search_inverted:
  "advancedSearch bare_host world_offline manager_two_games filters_inverted
     = (Inr [], manager_two_games, world_offline)"
  by code_simp

theorem advancedSearch_filters_witness:
  "advancedSearch bare_host world_offline manager_two_games filters_action_3_to_5
     = (Inr [entry_space_raiders], manager_two_games, world_offline)
   \<and> genre' filters_action_3_to_5 = Some ''action'' \<and> genre_active filters_action_3_to_5
   \<and> minRating filters_action_3_to_5 = Some (Fin 3)
   \<and> maxRating filters_action_3_to_5 = Some (Fin 5)
   \<and> genre_matches entry_space_raiders ''action''
   \<and> js_ge (rating_number (rating entry_space_raiders)) (Fin 3)
   \<and> js_le (rating_number (rating entry_space_raiders)) (Fin 5)
   \<and> minRating filters_inverted = Some (Fin 4) \<and> maxRating filters_inverted = Some (Fin 2)
   \<and> js_gt (Fin 4) (Fin 2)
   \<and> advancedSearch bare_host world_offline manager_two_games filters_inverted
     = (Inr [], manager_two_games, world_offline)"
proof -
  have a: "genre' filters_action_3_to_5 = Some ''action''" "genre_active filters_action_3_to_5"
    "minRating filters_action_3_to_5 = Some (Fin 3)" "maxRating filters_action_3_to_5 = Some (Fin 5)"
    by (simp_all add: filters_action_3_to_5_def no_filters_def genre_active_def)
  have b: "minRating filters_inverted = Some (Fin 4)" "maxRating filters_inverted = Some (Fin 2)"
    "js_gt (Fin 4) (Fin 2)"
    by (simp_all add: filters_inverted_def no_filters_def js_gt_def)
  show ?thesis
    using advancedSearch_filters[OF search_action_3_to_5] advancedSearch_filters[OF search_inverted]
      search_action_3_to_5 search_inverted a b
    by simp
qed

section \<open>Properties of the text search\<close>

lemma map_err_all_Inr:
  "(\<And>x. x \<in> set xs \<Longrightarrow> f x = Inr (k x)) \<Longrightarrow> map_err f xs = Inr (map k xs)"
  by (induction xs) auto

lemma lower_of_text: "is_text v \<Longrightarrow> lower_of v = Inr (lower_text v)"
  by (cases v) (auto simp: is_text_def lower_of_def lower_text_def)

lemma calculateSearchScore_typed:
  assumes "well_typed g"
  shows "calculateSearchScore g t ws
           = Inr (title_score (lower_text (title g)) t ws
                  + (\<Sum>x\<leftarrow>map lower_text (genre g). genre_score x t ws)
                  + (\<Sum>x\<leftarrow>map lower_text (tags g). tag_score x t ws)
                  + developer_score (lower_text (developer g)) t ws
                  + description_score (lower_text (description g))
                      (lower_text (fullDescription g)) t ws)"
proof -
  have g: "map_err lower_of (genre g) = Inr (map lower_text (genre g))"
    using assms by (intro map_err_all_Inr lower_of_text) (auto simp: well_typed_def list_all_iff)
  have t: "map_err lower_of (tags g) = Inr (map lower_text (tags g))"
    using assms by (intro map_err_all_Inr lower_of_text) (auto simp: well_typed_def list_all_iff)
  show ?thesis
    using assms unfolding calculateSearchScore_def g t
    by (simp add: well_typed_def lower_of_text bind_err_def)
qed

lemma relevance_typed:
  "well_typed g \<Longrightarrow>
   calculateSearchScore g (searchTerm_of q) (searchWords_of (searchTerm_of q)) = Inr (relevance g q)"
  by (simp add: relevance_def calculateSearchScore_typed)

lemma scoredGames_typed:
  assumes "\<forall>g \<in> set gs. well_typed g"
  shows "scoredGames gs q
           = Inr (filter (\<lambda>item. snd item > 0) (map (\<lambda>g. (g, relevance g q)) gs))"
proof -
  have "map_err (\<lambda>g. bind_err (calculateSearchScore g (searchTerm_of q)
                                   (searchWords_of (searchTerm_of q)))
                        (\<lambda>score. Inr (g, score))) gs
          = Inr (map (\<lambda>g. (g, relevance g q)) gs)"
    using assms by (intro map_err_all_Inr) (simp add: relevance_typed bind_err_def)
  then show ?thesis by (simp add: scoredGames_def Let_def bind_err_def)
qed

lemma insert_by_key:
  assumes "\<And>y. y \<in> set ys \<Longrightarrow> \<exists>c. cmp x y = Inr c \<and> (js_gt c (Fin 0) \<longleftrightarrow> key y < key x)"
  shows "insert_by cmp x ys = Inr (insort_key key x ys)"
  using assms
proof (induction ys)
  case Nil
  then show ?case by simp
next
  case (Cons y ys)
  from Cons.prems[of y] obtain c where c: "cmp x y = Inr c" "js_gt c (Fin 0) \<longleftrightarrow> key y < key x"
    by auto
  have "insert_by cmp x ys = Inr (insort_key key x ys)" using Cons by simp
  then show ?case using c by (auto simp: bind_err_def)
qed

lemma js_sort_key:
  fixes key :: "'a \<Rightarrow> 'k::linorder"
  assumes "\<And>x y. x \<in> set xs \<Longrightarrow> y \<in> set xs \<Longrightarrow>
             \<exists>c. cmp x y = Inr c \<and> (js_gt c (Fin 0) \<longleftrightarrow> key y < key x)"
  shows "js_sort cmp xs = Inr (sort_key key xs)"
  using assms
proof (induction xs)
  case Nil
  then show ?case by simp
next
  case (Cons x xs)
  have s: "js_sort cmp xs = Inr (sort_key key xs)" using Cons by simp
  have "insert_by cmp x (sort_key key xs) = Inr (insort_key key x (sort_key key xs))"
    using Cons.prems by (intro insert_by_key) simp
  then show ?case using s by (simp add: bind_err_def)
qed

lemma insort_key_map:
  "insort_key f (h x) (map h xs) = map h (insort_key (\<lambda>y. f (h y)) x xs)"
  by (induction xs) auto

lemma sort_key_map: "sort_key f (map h xs) = map h (sort_key (\<lambda>y. f (h y)) xs)"
  by (induction xs) (auto simp: insort_key_map)

lemma js_sort_by_score: "js_sort by_score items = Inr (sort_key (\<lambda>p. - int (snd p)) items)"
  by (rule js_sort_key) (auto simp: by_score_def js_gt_def)

lemma searchGames_ranked:
  assumes "loadGames h w m = (Inr gs, m1, w1)" "\<forall>g \<in> set gs. well_typed g" "\<not> blank (Some q)"
  shows "searchGames h w m (Some q)
           = (Inr (sort_key (\<lambda>g. - int (relevance g q)) (filter (\<lambda>g. 0 < relevance g q) gs)),
              m1, w1)"
proof -
  let ?pair = "\<lambda>g. (g, relevance g q)"
  have f: "filter (\<lambda>item. snd item > 0) (map ?pair gs) = map ?pair (filter (\<lambda>g. 0 < relevance g q) gs)"
    by (simp add: filter_map comp_def)
  have "map fst (sort_key (\<lambda>p. - int (snd p)) (map ?pair (filter (\<lambda>g. 0 < relevance g q) gs)))
          = sort_key (\<lambda>g. - int (relevance g q)) (filter (\<lambda>g. 0 < relevance g q) gs)"
    by (simp add: sort_key_map comp_def)
  then show ?thesis
    using assms by (simp add: searchGames_def scoredGames_typed f js_sort_by_score bind_err_def)
qed

text \<open>
  C3. On a loaded catalogue of well-typed entries: an empty or all-white query returns
  the catalogue as it is; any other query returns exactly the entries whose relevance
  score is above 0, in order of non-increasing score, entries of equal score in the order
  of the catalogue.
\<close>

theorem searchGames_result:
  assumes "loadGames h w m = (Inr gs, m1, w1)" and "\<forall>g \<in> set gs. well_typed g"
  shows "(blank q \<longrightarrow> searchGames h w m q = (Inr gs, m1, w1))
       \<and> (\<forall>s. q = Some s \<and> \<not> blank q \<longrightarrow>
            (\<exists>res. searchGames h w m q = (Inr res, m1, w1)
               \<and> mset res = mset (filter (\<lambda>g. 0 < relevance g s) gs)
               \<and> sorted_wrt (\<lambda>a b. relevance a s \<ge> relevance b s) res
               \<and> (\<forall>k. filter (\<lambda>g. relevance g s = k) res
                        = filter (\<lambda>g. relevance g s = k \<and> 0 < k) gs)))"
proof (intro conjI allI impI)
  assume "blank q"
  then show "searchGames h w m q = (Inr gs, m1, w1)"
    using assms(1) by (simp add: searchGames_def)
next
  fix s assume q: "q = Some s \<and> \<not> blank q"
  let ?key = "\<lambda>g. - int (relevance g s)"
  let ?hits = "filter (\<lambda>g. 0 < relevance g s) gs"
  let ?res = "sort_key ?key ?hits"
  have r: "searchGames h w m q = (Inr ?res, m1, w1)"
    using searchGames_ranked[OF assms, of s] q by auto
  have 1: "mset ?res = mset ?hits" by simp
  have "sorted (map ?key ?res)" by (rule sorted_sort_key)
  then have 2: "sorted_wrt (\<lambda>a b. relevance a s \<ge> relevance b s) ?res"
    by (simp add: sorted_map) 
  have 3: "filter (\<lambda>g. relevance g s = k) ?res = filter (\<lambda>g. relevance g s = k \<and> 0 < k) gs" for k
  proof -
    have "filter (\<lambda>g. relevance g s = k) ?res = filter (\<lambda>g. ?key g = - int k) ?res"
      by simp
    also have "\<dots> = filter (\<lambda>g. ?key g = - int k) ?hits" by (rule sort_key_stable)
    also have "\<dots> = filter (\<lambda>g. relevance g s = k \<and> 0 < k) gs"
      by (auto intro: filter_cong)
    finally show ?thesis .
  qed
  show "\<exists>res. searchGames h w m q = (Inr res, m1, w1)
               \<and> mset res = mset (filter (\<lambda>g. 0 < relevance g s) gs)
               \<and> sorted_wrt (\<lambda>a b. relevance a s \<ge> relevance b s) res
               \<and> (\<forall>k. filter (\<lambda>g. relevance g s = k) res
                        = filter (\<lambda>g. relevance g s = k \<and> 0 < k) gs)"
    using r 1 2 3 by blast
qed

lemma typed_two_games: "\<forall>g \<in> set [entry_space_raiders, entry_puzzle_quest]. well_typed g"
  by (simp add: well_typed_def is_text_def entry_space_raiders_def entry_puzzle_quest_def)

lemma load_two_games:
  "loadGames bare_host world_offline manager_two_games
     = (Inr [entry_space_raiders, entry_puzzle_quest], manager_two_games, world_offline)"
  by (simp add: loadGames_def manager_two_games_def)

lemma blank_spaces: "blank (Some ''  '')"
  by code_simp

lemma not_blank_space: "\<not> blank (Some ''space'')"
  by code_simp

lemma search_space:
  "searchGames bare_host world_offline manager_two_games (Some ''space'')
     = (Inr [entry_space_raiders], manager_two_games, world_offline)"
  by code_simp

theorem searchGames_result_witness:
  "loadGames bare_host world_offline manager_two_games
     = (Inr [entry_space_raiders, entry_puzzle_quest], manager_two_games, world_offline)
   \<and> well_typed entry_space_raiders \<and> well_typed entry_puzzle_quest
   \<and> blank (Some ''  '')
   \<and> searchGames bare_host world_offline manager_two_games (Some ''  '')
     = (Inr [entry_space_raiders, entry_puzzle_quest], manager_two_games, world_offline)
   \<and> \<not> blank (Some ''space'')
   \<and> searchGames bare_host world_offline manager_two_games (Some ''space'')
     = (Inr [entry_space_raiders], manager_two_games, world_offline)
   \<and> mset [entry_space_raiders]
     = mset (filter (\<lambda>g. 0 < relevance g ''space'') [entry_space_raiders, entry_puzzle_quest])
   \<and> (\<forall>k. filter (\<lambda>g. relevance g ''space'' = k) [entry_space_raiders]
          = filter (\<lambda>g. relevance g ''space'' = k \<and> 0 < k) [entry_space_raiders, entry_puzzle_quest])"
proof -
  note a = searchGames_result[OF load_two_games typed_two_games, of "Some ''  ''"]
  note b = searchGames_result[OF load_two_games typed_two_games, of "Some ''space''"]
  from b not_blank_space obtain res where
    r: "searchGames bare_host world_offline manager_two_games (Some ''space'')
          = (Inr res, manager_two_games, world_offline)"
    and m: "mset res
          = mset (filter (\<lambda>g. 0 < relevance g ''space'') [entry_space_raiders, entry_puzzle_quest])"
    and k: "\<forall>k. filter (\<lambda>g. relevance g ''space'' = k) res
          = filter (\<lambda>g. relevance g ''space'' = k \<and> 0 < k) [entry_space_raiders, entry_puzzle_quest]"
    by blast
  have res: "res = [entry_space_raiders]" using r search_space by simp
  show ?thesis
    using a blank_spaces not_blank_space load_two_games typed_two_games search_space m k
    unfolding res by simp
qed

section \<open>Properties of the relevance score\<close>

lemma split_ws_sublist: "w \<in> set (split_ws s) \<Longrightarrow> sublist w s"
proof (induction s arbitrary: w rule: split_ws.induct)
  case (1 s)
  let ?piece = "takeWhile (\<lambda>c. \<not> is_space c) s"
  let ?rest = "dropWhile (\<lambda>c. \<not> is_space c) s"
  have p: "sublist ?piece s" by (simp add: takeWhile_is_prefix)
  show ?case
  proof (cases "?rest = []")
    case True
    with "1.prems" have "w = ?piece" by (subst (asm) split_ws.simps) (simp add: Let_def)
    with p show ?thesis by simp
  next
    case False
    with "1.prems" have "w = ?piece \<or> w \<in> set (split_ws (dropWhile is_space ?rest))"
      by (subst (asm) split_ws.simps) (auto simp: Let_def split: if_splits)
    then show ?thesis
    proof
      assume "w = ?piece"
      with p show ?thesis by simp
    next
      assume "w \<in> set (split_ws (dropWhile is_space ?rest))"
      then have "sublist w (dropWhile is_space ?rest)"
        using "1.IH"[OF refl refl False] by simp
      moreover have "suffix (dropWhile is_space ?rest) ?rest" by (rule suffix_dropWhile)
      moreover have "suffix ?rest s" by (rule suffix_dropWhile)
      ultimately show ?thesis
        by (meson suffix_imp_sublist sublist_order.order.trans)
    qed
  qed
qed

lemma words_in_term: "w \<in> set (searchWords_of t) \<Longrightarrow> includes_str t w"
  by (auto simp: searchWords_of_def includes_str_def intro: split_ws_sublist)

lemma words_in_field:
  "includes_str s t \<Longrightarrow> w \<in> set (searchWords_of t) \<Longrightarrow> includes_str s w"
  using words_in_term[of w t] unfolding includes_str_def
  by (meson sublist_order.order.trans)

lemma sum_if_all:
  "(\<And>w. w \<in> set ws \<Longrightarrow> P w) \<Longrightarrow> (\<Sum>w\<leftarrow>ws. if P w then k else 0) = k * length ws"
  for k :: nat
  by (induction ws) auto

lemma sum_if_none:
  "(\<And>w. w \<in> set ws \<Longrightarrow> \<not> P w) \<Longrightarrow> (\<Sum>w\<leftarrow>ws. if P w then k else 0) = 0"
  for k :: nat
  by (induction ws) auto

lemma sum_if_le:
  "(\<Sum>w\<leftarrow>ws. if P w then k else 0) \<le> k * length ws"
  for k :: nat
  by (induction ws) auto

lemma title_score_exact:
  "title_score (searchTerm_of q) (searchTerm_of q) (searchWords_of (searchTerm_of q))
     = 100 + 40 * length (searchWords_of (searchTerm_of q))"
  by (simp add: title_score_def sum_if_all words_in_term)

lemma title_score_substring:
  assumes "t \<noteq> searchTerm_of q" "includes_str t (searchTerm_of q)"
  shows "title_score t (searchTerm_of q) (searchWords_of (searchTerm_of q))
           = (if startsWith t (searchTerm_of q) then 80 else 60)
             + 40 * length (searchWords_of (searchTerm_of q))"
  using assms by (simp add: title_score_def sum_if_all words_in_field)

lemma silent_title: "silent t q \<Longrightarrow> title_score t (searchTerm_of q) (searchWords_of (searchTerm_of q)) = 0"
  by (auto simp: title_score_def silent_def list_all_iff sum_if_none includes_str_def startsWith_def)

lemma silent_genre: "silent t q \<Longrightarrow> genre_score t (searchTerm_of q) (searchWords_of (searchTerm_of q)) = 0"
  by (auto simp: genre_score_def silent_def list_all_iff sum_if_none includes_str_def)

lemma silent_tag: "silent t q \<Longrightarrow> tag_score t (searchTerm_of q) (searchWords_of (searchTerm_of q)) = 0"
  by (auto simp: tag_score_def silent_def list_all_iff sum_if_none includes_str_def)

lemma silent_developer:
  "silent t q \<Longrightarrow> developer_score t (searchTerm_of q) (searchWords_of (searchTerm_of q)) = 0"
  by (auto simp: developer_score_def silent_def list_all_iff sum_if_none)

lemma silent_descriptions:
  "silent d q \<Longrightarrow> silent fd q \<Longrightarrow>
   description_score d fd (searchTerm_of q) (searchWords_of (searchTerm_of q)) = 0"
  by (auto simp: description_score_def silent_def list_all_iff sum_if_none sum_list_addf)

lemma silent_description_bound:
  assumes "silent d q"
  shows "description_score d fd (searchTerm_of q) (searchWords_of (searchTerm_of q))
           \<le> 20 + 10 * length (searchWords_of (searchTerm_of q))"
proof -
  let ?ws = "searchWords_of (searchTerm_of q)"
  have "(\<Sum>word\<leftarrow>?ws. (if includes_str d word then 15 else 0) + (if includes_str fd word then 10 else (0::nat)))
          = (\<Sum>word\<leftarrow>?ws. if includes_str fd word then 10 else 0)"
    using assms by (intro arg_cong[where f = sum_list] map_cong) (auto simp: silent_def list_all_iff)
  also have "\<dots> \<le> 10 * length ?ws" by (rule sum_if_le)
  finally show ?thesis using assms by (simp add: description_score_def silent_def)
qed

lemma silent_sum_genres:
  "list_all (\<lambda>x. silent (lower_text x) q) xs \<Longrightarrow>
   (\<Sum>x\<leftarrow>map lower_text xs. genre_score x (searchTerm_of q) (searchWords_of (searchTerm_of q))) = 0"
  by (induction xs) (auto simp: silent_genre)

lemma silent_sum_tags:
  "list_all (\<lambda>x. silent (lower_text x) q) xs \<Longrightarrow>
   (\<Sum>x\<leftarrow>map lower_text xs. tag_score x (searchTerm_of q) (searchWords_of (searchTerm_of q))) = 0"
  by (induction xs) (auto simp: silent_tag)

lemma relevance_sum:
  "well_typed g \<Longrightarrow>
   relevance g q
     = title_score (lower_text (title g)) (searchTerm_of q) (searchWords_of (searchTerm_of q))
       + (\<Sum>x\<leftarrow>map lower_text (genre g). genre_score x (searchTerm_of q) (searchWords_of (searchTerm_of q)))
       + (\<Sum>x\<leftarrow>map lower_text (tags g). tag_score x (searchTerm_of q) (searchWords_of (searchTerm_of q)))
       + developer_score (lower_text (developer g)) (searchTerm_of q) (searchWords_of (searchTerm_of q))
       + description_score (lower_text (description g)) (lower_text (fullDescription g))
           (searchTerm_of q) (searchWords_of (searchTerm_of q))"
  by (simp add: relevance_def calculateSearchScore_typed)

text \<open>
  C7. For any query and well-typed entries: an entry whose title, in lower case, is the
  search term scores strictly above an entry whose title contains the term without
  being it and that matches in no other field, and that one scores strictly above an
  entry that matches in its full description only.
\<close>

theorem relevance_tiers:
  assumes "well_typed a" and "well_typed b" and "well_typed c"
    and "lower_text (title a) = searchTerm_of q"
    and "lower_text (title b) \<noteq> searchTerm_of q"
    and "includes_str (lower_text (title b)) (searchTerm_of q)"
    and "title_only b q"
    and "fullDescription_only c q"
  shows "relevance b q < relevance a q \<and> relevance c q < relevance b q"
proof -
  let ?n = "length (searchWords_of (searchTerm_of q))"
  have a: "100 + 40 * ?n \<le> relevance a q"
    using assms(4) by (simp add: relevance_sum[OF assms(1)] title_score_exact)
  have bt: "title_only b q" by (rule assms(7))
  have b1: "(\<Sum>x\<leftarrow>map lower_text (genre b). genre_score x (searchTerm_of q) (searchWords_of (searchTerm_of q))) = 0"
    by (rule silent_sum_genres) (use bt in \<open>simp add: title_only_def\<close>)
  have b2: "(\<Sum>x\<leftarrow>map lower_text (tags b). tag_score x (searchTerm_of q) (searchWords_of (searchTerm_of q))) = 0"
    by (rule silent_sum_tags) (use bt in \<open>simp add: title_only_def\<close>)
  have b3: "developer_score (lower_text (developer b)) (searchTerm_of q) (searchWords_of (searchTerm_of q)) = 0"
    by (rule silent_developer) (use bt in \<open>simp add: title_only_def\<close>)
  have b4: "description_score (lower_text (description b)) (lower_text (fullDescription b))
              (searchTerm_of q) (searchWords_of (searchTerm_of q)) = 0"
    by (rule silent_descriptions) (use bt in \<open>simp_all add: title_only_def\<close>)
  have b: "relevance b q = (if startsWith (lower_text (title b)) (searchTerm_of q) then 80 else 60) + 40 * ?n"
    unfolding relevance_sum[OF assms(2)] b1 b2 b3 b4 title_score_substring[OF assms(5,6)] by simp
  have ct: "fullDescription_only c q" by (rule assms(8))
  have c0: "title_score (lower_text (title c)) (searchTerm_of q) (searchWords_of (searchTerm_of q)) = 0"
    by (rule silent_title) (use ct in \<open>simp add: fullDescription_only_def\<close>)
  have c1: "(\<Sum>x\<leftarrow>map lower_text (genre c). genre_score x (searchTerm_of q) (searchWords_of (searchTerm_of q))) = 0"
    by (rule silent_sum_genres) (use ct in \<open>simp add: fullDescription_only_def\<close>)
  have c2: "(\<Sum>x\<leftarrow>map lower_text (tags c). tag_score x (searchTerm_of q) (searchWords_of (searchTerm_of q))) = 0"
    by (rule silent_sum_tags) (use ct in \<open>simp add: fullDescription_only_def\<close>)
  have c3: "developer_score (lower_text (developer c)) (searchTerm_of q) (searchWords_of (searchTerm_of q)) = 0"
    by (rule silent_developer) (use ct in \<open>simp add: fullDescription_only_def\<close>)
  have c4: "description_score (lower_text (description c)) (lower_text (fullDescription c))
              (searchTerm_of q) (searchWords_of (searchTerm_of q)) \<le> 20 + 10 * ?n"
    by (rule silent_description_bound) (use ct in \<open>simp add: fullDescription_only_def\<close>)
  have c: "relevance c q \<le> 20 + 10 * ?n"
    unfolding relevance_sum[OF assms(3)] c0 c1 c2 c3 using c4 by simp
  show ?thesis using a b c by (auto split: if_splits)
qed

lemma relevance_values:
  "relevance entry_space ''Space'' = 140"
  "relevance entry_space_raiders ''Space'' = 120"
  "relevance entry_told ''Space'' = 30"
  by code_simp+

theorem relevance_tiers_witness:
  "well_typed entry_space \<and> well_typed entry_space_raiders \<and> well_typed entry_told
   \<and> lower_text (title entry_space) = searchTerm_of ''Space''
   \<and> lower_text (title entry_space_raiders) \<noteq> searchTerm_of ''Space''
   \<and> includes_str (lower_text (title entry_space_raiders)) (searchTerm_of ''Space'')
   \<and> title_only entry_space_raiders ''Space''
   \<and> fullDescription_only entry_told ''Space''
   \<and> relevance entry_space_raiders ''Space'' < relevance entry_space ''Space''
   \<and> relevance entry_told ''Space'' < relevance entry_space_raiders ''Space''"
proof -
  have 1: "well_typed entry_space" by code_simp
  have 2: "well_typed entry_space_raiders" by code_simp
  have 3: "well_typed entry_told" by code_simp
  have 4: "lower_text (title entry_space) = searchTerm_of ''Space''" by code_simp
  have 5: "lower_text (title entry_space_raiders) \<noteq> searchTerm_of ''Space''" by code_simp
  have 6: "includes_str (lower_text (title entry_space_raiders)) (searchTerm_of ''Space'')"
    by code_simp
  have 7: "title_only entry_space_raiders ''Space''" by code_simp
  have 8: "fullDescription_only entry_told ''Space''" by code_simp
  show ?thesis using relevance_tiers[OF 1 2 3 4 5 6 7 8] 1 2 3 4 5 6 7 8 by simp
qed

section \<open>Properties of sorting by release date\<close>

lemma comparison_releaseDate_asc:
  assumes "dated_or_absent a" "dated_or_absent b"
  shows "comparison h ''releaseDate'' ''asc'' a b = Inr (Fin (of_int (date_key a) - of_int (date_key b)))"
  using assms
  by (auto simp: comparison_def dated_or_absent_def date_key_def date_or_epoch_def date_number_def
      split: release_date.splits option.splits)

lemma comparison_releaseDate_desc:
  assumes "dated_or_absent a" "dated_or_absent b"
  shows "comparison h ''releaseDate'' ''desc'' a b = Inr (Fin (of_int (date_key b) - of_int (date_key a)))"
  using assms
  by (auto simp: comparison_def dated_or_absent_def date_key_def date_or_epoch_def date_number_def
      split: release_date.splits option.splits)

lemma sort_asc_by_date_key:
  assumes "\<forall>g \<in> set gs. dated_or_absent g"
  shows "sortGames h gs ''releaseDate'' ''asc'' = Inr (sort_key date_key gs)"
  unfolding sortGames_def
  by (rule js_sort_key) (use assms in \<open>auto simp: comparison_releaseDate_asc js_gt_def\<close>)

lemma sort_desc_by_date_key:
  assumes "\<forall>g \<in> set gs. dated_or_absent g"
  shows "sortGames h gs ''releaseDate'' ''desc'' = Inr (sort_key (\<lambda>g. - date_key g) gs)"
  unfolding sortGames_def
  by (rule js_sort_key) (use assms in \<open>auto simp: comparison_releaseDate_desc js_gt_def\<close>)

text \<open>
  C9, as the code has it. Sorting by release date counts an absent date as the epoch
  (time value 0). On entries whose dates are absent or valid, the sort returns the same
  entries, ascending in that time value for \<^verbatim>\<open>asc\<close> and descending for \<^verbatim>\<open>desc\<close>, with
  entries of equal time value in their former order. So in ascending order the entries
  without a date come after those dated before 1970 and before those dated after it, and
  in descending order the other way round.
\<close>

theorem sortGames_releaseDate:
  assumes "\<forall>g \<in> set gs. dated_or_absent g"
  shows "\<exists>up down.
           sortGames h gs ''releaseDate'' ''asc'' = Inr up
         \<and> sortGames h gs ''releaseDate'' ''desc'' = Inr down
         \<and> mset up = mset gs \<and> mset down = mset gs
         \<and> sorted_wrt (\<lambda>a b. date_key a \<le> date_key b) up
         \<and> sorted_wrt (\<lambda>a b. date_key a \<ge> date_key b) down
         \<and> (\<forall>k. filter (\<lambda>g. date_key g = k) up = filter (\<lambda>g. date_key g = k) gs)
         \<and> (\<forall>k. filter (\<lambda>g. date_key g = k) down = filter (\<lambda>g. date_key g = k) gs)"
proof -
  let ?up = "sort_key date_key gs" and ?down = "sort_key (\<lambda>g. - date_key g) gs"
  have "sorted (map date_key ?up)" by (rule sorted_sort_key)
  then have 1: "sorted_wrt (\<lambda>a b. date_key a \<le> date_key b) ?up" by (simp add: sorted_map)
  have "sorted (map (\<lambda>g. - date_key g) ?down)" by (rule sorted_sort_key)
  then have 2: "sorted_wrt (\<lambda>a b. date_key a \<ge> date_key b) ?down" by (simp add: sorted_map)
  have 3: "filter (\<lambda>g. date_key g = k) ?up = filter (\<lambda>g. date_key g = k) gs" for k
    by (rule sort_key_stable)
  have 4: "filter (\<lambda>g. date_key g = k) ?down = filter (\<lambda>g. date_key g = k) gs" for k
    using sort_key_stable[of "\<lambda>g. - date_key g" "- k" gs] by simp
  show ?thesis
    using sort_asc_by_date_key[OF assms, of h] sort_desc_by_date_key[OF assms, of h]
      1 2 3 4 by auto
qed

lemma sort_three_asc:
  "sortGames bare_host [entry_puzzle_quest, entry_2020, entry_1969] ''releaseDate'' ''asc''
     = Inr [entry_1969, entry_puzzle_quest, entry_2020]"
  by code_simp

lemma sort_three_desc:
  "sortGames bare_host [entry_puzzle_quest, entry_2020, entry_1969] ''releaseDate'' ''desc''
     = Inr [entry_2020, entry_puzzle_quest, entry_1969]"
  by code_simp

theorem sortGames_releaseDate_witness:
  "dated_or_absent entry_puzzle_quest \<and> dated_or_absent entry_2020
   \<and> dated_or_absent entry_1969
   \<and> sortGames bare_host [entry_puzzle_quest, entry_2020, entry_1969] ''releaseDate'' ''asc''
     = Inr [entry_1969, entry_puzzle_quest, entry_2020]
   \<and> sortGames bare_host [entry_puzzle_quest, entry_2020, entry_1969] ''releaseDate'' ''desc''
     = Inr [entry_2020, entry_puzzle_quest, entry_1969]
   \<and> sorted_wrt (\<lambda>a b. date_key a \<le> date_key b) [entry_1969, entry_puzzle_quest, entry_2020]
   \<and> sorted_wrt (\<lambda>a b. date_key a \<ge> date_key b) [entry_2020, entry_puzzle_quest, entry_1969]"
proof -
  have d: "\<forall>g \<in> set [entry_puzzle_quest, entry_2020, entry_1969]. dated_or_absent g"
    by (simp add: dated_or_absent_def entry_puzzle_quest_def entry_2020_def entry_1969_def)
  from sortGames_releaseDate[OF d, of bare_host] obtain up down where
    "sortGames bare_host [entry_puzzle_quest, entry_2020, entry_1969] ''releaseDate'' ''asc'' = Inr up"
    "sortGames bare_host [entry_puzzle_quest, entry_2020, entry_1969] ''releaseDate'' ''desc'' = Inr down"
    "sorted_wrt (\<lambda>a b. date_key a \<le> date_key b) up"
    "sorted_wrt (\<lambda>a b. date_key a \<ge> date_key b) down"
    by blast
  then show ?thesis using d sort_three_asc sort_three_desc by simp
qed

text \<open>
  An entry dated one day before the epoch sorts before an undated one in ascending
  order, and after it in descending order.
\<close>

theorem undated_not_earliest_counterexample:
  "releaseDate entry_puzzle_quest = NoDate
   \<and> releaseDate entry_1969 = DateObj (Some (- 86400000))
   \<and> sortGames bare_host [entry_puzzle_quest, entry_1969] ''releaseDate'' ''asc''
     = Inr [entry_1969, entry_puzzle_quest]
   \<and> sortGames bare_host [entry_1969, entry_puzzle_quest] ''releaseDate'' ''desc''
     = Inr [entry_puzzle_quest, entry_1969]"
  by code_simp

section \<open>Properties of the Debouncer\<close>

lemma advance_armed:
  assumes "pending env = [(h, due, v)]"
  shows "advance env t =
           env \<lparr> clock := max (clock env) t,
                 pending := (if due \<le> t then [] else [(h, due, v)]),
                 calls := calls env @ (if due \<le> t then [(due, v)] else []) \<rparr>"
  using assms by (simp add: advance_def)

lemma execute_armed:
  assumes "timeoutId d = Some h" "pending env = [] \<or> (\<exists>due v. pending env = [(h, due, v)])"
  shows "execute d env args =
           (d \<lparr> timeoutId := Some (next_handle env) \<rparr>,
            env \<lparr> next_handle := next_handle env + 1,
                  pending := [(next_handle env, clock env + delay d, args)] \<rparr>)"
  using assms by (auto simp: execute_def setTimeout_def clearTimeout_def)

lemma run_calls_armed:
  assumes "timeoutId d = Some h" "pending env = [(h, clock env + delay d, v)]"
    and "sorted (map fst cs)" "\<forall>t \<in> set (map fst cs). clock env \<le> t \<and> t \<le> t_end"
    and "clock env \<le> t_end"
  shows "calls (advance (snd (run_calls d env cs)) t_end)
           = calls env @ settled (delay d) ((clock env, v) # cs) t_end"
  using assms
proof (induction cs arbitrary: d env h v)
  case Nil
  then show ?case by (simp add: advance_armed)
next
  case (Cons c cs)
  obtain t v' where c: "c = (t, v')" by (cases c)
  let ?env1 = "advance env t"
  let ?d2 = "d \<lparr> timeoutId := Some (next_handle ?env1) \<rparr>"
  let ?env2 = "?env1 \<lparr> next_handle := next_handle ?env1 + 1,
                       pending := [(next_handle ?env1, clock ?env1 + delay d, v')] \<rparr>"
  have le: "clock env \<le> t" using Cons.prems(4) c by simp
  have a: "?env1 = env \<lparr> clock := t,
                 pending := (if clock env + delay d \<le> t then [] else [(h, clock env + delay d, v)]),
                 calls := calls env @ (if clock env + delay d \<le> t then [(clock env + delay d, v)] else []) \<rparr>"
    using advance_armed[OF Cons.prems(2), of t] le by (simp add: max_def)
  have e: "execute d ?env1 v' = (?d2, ?env2)"
    by (rule execute_armed[OF Cons.prems(1)]) (simp add: a)
  have r: "run_calls d env (c # cs) = run_calls ?d2 ?env2 cs" by (simp add: c e)
  have clk: "clock ?env2 = t" by (simp add: a)
  have "calls (advance (snd (run_calls ?d2 ?env2 cs)) t_end)
          = calls ?env2 @ settled (delay ?d2) ((clock ?env2, v') # cs) t_end"
  proof (rule Cons.IH)
    show "timeoutId ?d2 = Some (next_handle ?env1)" by simp
    show "pending ?env2 = [(next_handle ?env1, clock ?env2 + delay ?d2, v')]" by simp
    show "sorted (map fst cs)" using Cons.prems(3) by simp
    show "\<forall>t' \<in> set (map fst cs). clock ?env2 \<le> t' \<and> t' \<le> t_end"
      using Cons.prems(3,4) c unfolding clk by auto
    show "clock ?env2 \<le> t_end" using Cons.prems(4) c unfolding clk by simp
  qed
  then show ?case unfolding r clk by (simp add: a c)
qed

lemma debounced_eq_settled:
  assumes "sorted (map fst cs)" "\<forall>t \<in> set (map fst cs). t \<le> t_end"
  shows "debounced d cs t_end = settled d cs t_end"
proof (cases cs)
  case Nil
  then show ?thesis by (simp add: debounced_def advance_def no_timers_def)
next
  case (Cons c cs')
  obtain t v where c: "c = (t, v)" by (cases c)
  let ?env1 = "advance no_timers t"
  let ?d2 = "new_Debouncer d \<lparr> timeoutId := Some 1 \<rparr>"
  let ?env2 = "(no_timers :: 'a timers) \<lparr> clock := t, next_handle := 2, pending := [(1, t + d, v)] \<rparr>"
  have e: "execute (new_Debouncer d) ?env1 v = (?d2, ?env2)"
    by (simp add: execute_def setTimeout_def clearTimeout_def advance_def no_timers_def
        new_Debouncer_def)
  have "calls (advance (snd (run_calls ?d2 ?env2 cs')) t_end)
          = calls ?env2 @ settled (delay ?d2) ((clock ?env2, v) # cs') t_end"
  proof (rule run_calls_armed)
    show "timeoutId ?d2 = Some 1" by simp
    show "pending ?env2 = [(1, clock ?env2 + delay ?d2, v)]" by (simp add: new_Debouncer_def)
    show "sorted (map fst cs')" using assms(1) Cons by simp
    show "\<forall>t' \<in> set (map fst cs'). clock ?env2 \<le> t' \<and> t' \<le> t_end"
      using assms Cons c by auto
    show "clock ?env2 \<le> t_end" using assms(2) Cons c by simp
  qed
  moreover have "run_calls (new_Debouncer d) no_timers cs = run_calls ?d2 ?env2 cs'"
    unfolding Cons c by (simp add: e)
  moreover have "calls ?env2 = []" "clock ?env2 = t" "delay ?d2 = d"
    by (simp_all add: no_timers_def new_Debouncer_def)
  ultimately show ?thesis
    unfolding debounced_def by (simp add: Cons c)
qed

lemma run_calls_pending:
  assumes "timeoutId d = Some h" "pending env = [(h, clock env + delay d, v)]"
    and "sorted (map fst cs)" "\<forall>t \<in> set (map fst cs). clock env \<le> t"
  shows "map snd (pending (snd (run_calls d env cs)))
           = [(fst (last ((clock env, v) # cs)) + delay d, snd (last ((clock env, v) # cs)))]"
  using assms
proof (induction cs arbitrary: d env h v)
  case Nil
  then show ?case by simp
next
  case (Cons c cs)
  obtain t v' where c: "c = (t, v')" by (cases c)
  let ?env1 = "advance env t"
  let ?d2 = "d \<lparr> timeoutId := Some (next_handle ?env1) \<rparr>"
  let ?env2 = "?env1 \<lparr> next_handle := next_handle ?env1 + 1,
                       pending := [(next_handle ?env1, clock ?env1 + delay d, v')] \<rparr>"
  have le: "clock env \<le> t" using Cons.prems(4) c by simp
  have a: "?env1 = env \<lparr> clock := t,
                 pending := (if clock env + delay d \<le> t then [] else [(h, clock env + delay d, v)]),
                 calls := calls env @ (if clock env + delay d \<le> t then [(clock env + delay d, v)] else []) \<rparr>"
    using advance_armed[OF Cons.prems(2), of t] le by (simp add: max_def)
  have e: "execute d ?env1 v' = (?d2, ?env2)"
    by (rule execute_armed[OF Cons.prems(1)]) (simp add: a)
  have r: "run_calls d env (c # cs) = run_calls ?d2 ?env2 cs" by (simp add: c e)
  have clk: "clock ?env2 = t" by (simp add: a)
  have "map snd (pending (snd (run_calls ?d2 ?env2 cs)))
          = [(fst (last ((clock ?env2, v') # cs)) + delay ?d2, snd (last ((clock ?env2, v') # cs)))]"
  proof (rule Cons.IH)
    show "timeoutId ?d2 = Some (next_handle ?env1)" by simp
    show "pending ?env2 = [(next_handle ?env1, clock ?env2 + delay ?d2, v')]" by simp
    show "sorted (map fst cs)" using Cons.prems(3) by simp
    show "\<forall>t' \<in> set (map fst cs). clock ?env2 \<le> t'"
      using Cons.prems(3) c unfolding clk by auto
  qed
  then show ?case unfolding r clk by (simp add: c)
qed

lemma pending_after_calls:
  assumes "sorted (map fst cs)" "cs \<noteq> []"
  shows "map snd (pending (snd (run_calls (new_Debouncer d) no_timers cs)))
           = [(fst (last cs) + d, snd (last cs))]"
proof -
  from assms(2) obtain c cs' where Cons: "cs = c # cs'" by (cases cs) auto
  obtain t v where c: "c = (t, v)" by (cases c)
  let ?env1 = "advance no_timers t"
  let ?d2 = "new_Debouncer d \<lparr> timeoutId := Some 1 \<rparr>"
  let ?env2 = "(no_timers :: 'a timers) \<lparr> clock := t, next_handle := 2, pending := [(1, t + d, v)] \<rparr>"
  have e: "execute (new_Debouncer d) ?env1 v = (?d2, ?env2)"
    by (simp add: execute_def setTimeout_def clearTimeout_def advance_def no_timers_def
        new_Debouncer_def)
  have "map snd (pending (snd (run_calls ?d2 ?env2 cs')))
          = [(fst (last ((clock ?env2, v) # cs')) + delay ?d2, snd (last ((clock ?env2, v) # cs')))]"
  proof (rule run_calls_pending)
    show "timeoutId ?d2 = Some 1" by simp
    show "pending ?env2 = [(1, clock ?env2 + delay ?d2, v)]" by (simp add: new_Debouncer_def)
    show "sorted (map fst cs')" using assms(1) Cons by simp
    show "\<forall>t' \<in> set (map fst cs'). clock ?env2 \<le> t'" using assms(1) Cons c by auto
  qed
  moreover have "run_calls (new_Debouncer d) no_timers cs = run_calls ?d2 ?env2 cs'"
    unfolding Cons c by (simp add: e)
  moreover have "clock ?env2 = t" "delay ?d2 = d"
    by (simp_all add: new_Debouncer_def)
  moreover have "last ((t, v) # cs') = last cs" unfolding Cons c by simp
  ultimately show ?thesis by simp
qed

text \<open>
  C10. For calls of \<^verbatim>\<open>execute\<close> at non-decreasing times, followed up to a time not
  before the last of them: the wrapped function has been called exactly for the calls
  that no further call followed within the delay, each one delay after its call and with
  its value, once; and after the calls a single timer is set, for the latest value, due
  one delay after the latest call. For the keystrokes \<^verbatim>\<open>a\<close>, \<^verbatim>\<open>ab\<close>, \<^verbatim>\<open>abc\<close> at 0,
  100 and 200 ms with a delay of 300 ms this is one call, at 500 ms, with \<^verbatim>\<open>abc\<close>.
\<close>

theorem debounced_settled:
  assumes "sorted (map fst cs)" and "\<forall>t \<in> set (map fst cs). t \<le> t_end"
  shows "debounced d cs t_end = settled d cs t_end
       \<and> (cs \<noteq> [] \<longrightarrow>
            map snd (pending (snd (run_calls (new_Debouncer d) no_timers cs)))
              = [(fst (last cs) + d, snd (last cs))])
       \<and> debounced 300 keystrokes 1000 = [(500, ''abc'')]"
proof -
  have k: "sorted (map fst keystrokes)" "\<forall>t \<in> set (map fst keystrokes). t \<le> 1000"
    by (simp_all add: keystrokes_def)
  have "debounced 300 keystrokes 1000 = settled 300 keystrokes 1000"
    using k by (rule debounced_eq_settled)
  also have "\<dots> = [(500, ''abc'')]" by (simp add: keystrokes_def)
  finally show ?thesis
    using debounced_eq_settled[OF assms] pending_after_calls[OF assms(1)] by simp
qed

theorem debounced_settled_witness:
  "sorted (map fst keystrokes) \<and> list_all (\<lambda>t. t \<le> 1000) (map fst keystrokes)
   \<and> keystrokes \<noteq> []
   \<and> debounced 300 keystrokes 1000 = settled 300 keystrokes 1000
   \<and> settled 300 keystrokes 1000 = [(500, ''abc'')]
   \<and> map snd (pending (snd (run_calls (new_Debouncer 300) no_timers keystrokes))) = [(500, ''abc'')]"
proof -
  have k: "sorted (map fst keystrokes)" "\<forall>t \<in> set (map fst keystrokes). t \<le> 1000"
    by (simp_all add: keystrokes_def)
  have n: "keystrokes \<noteq> []" by (simp add: keystrokes_def)
  have l: "fst (last keystrokes) + 300 = 500" "snd (last keystrokes) = ''abc''"
    by (simp_all add: keystrokes_def)
  have s: "settled 300 keystrokes 1000 = [(500, ''abc'')]" by (simp add: keystrokes_def)
  show ?thesis using debounced_settled[OF k, of 300] k n l s by (simp add: list_all_iff)
qed

section \<open>The record of the cache stays fresh for the time to live\<close>

text \<open>
  The timestamp that \<^verbatim>\<open>setCachedData\<close> writes reads back as the time of writing
  (a time in milliseconds is far below \<open>2\<^sup>5\<^sup>3\<close>, where whole numbers are doubles), so
  the record is fresh exactly until the time to live has run out.
\<close>

lemma digit_of_char_of:
  assumes "0 \<le> n" "n < 10"
  shows "digit_of (char_of (48 + n :: int)) = Some (nat n)"
proof -
  have "(of_char (char_of (48 + n :: int)) :: int) = (48 + n) mod 256" by (rule of_char_of)
  also have "\<dots> = 48 + n" using assms by simp
  finally have i: "(of_char (char_of (48 + n :: int)) :: int) = 48 + n" .
  have "int (of_char (char_of (48 + n :: int)) :: nat) = 48 + n"
    using i by (simp only: of_nat_of_char)
  then have "(of_char (char_of (48 + n :: int)) :: nat) = nat (48 + n)" by linarith
  then show ?thesis using assms by (simp add: digit_of_def Let_def nat_add_distrib)
qed

lemma digits_value_snoc:
  "digits_value r f (ds @ [c]) = r * digits_value r f ds + (case f c of Some d \<Rightarrow> int d | None \<Rightarrow> 0)"
  by (simp add: digits_value_def)

lemma digits_props:
  "0 \<le> n \<Longrightarrow>
   digits n \<noteq> [] \<and> list_all is_digit (digits n) \<and> digits_value 10 digit_of (digits n) = n"
proof (induction n rule: digits.induct)
  case (1 n)
  show ?case
  proof (cases "n < 10")
    case True
    then show ?thesis
      using "1.prems" digit_of_char_of[of n]
      by (subst (1 2 3) digits.simps) (simp add: is_digit_def digits_value_def)
  next
    case False
    have m: "0 \<le> n mod 10" "n mod 10 < 10" by simp_all
    have ih: "digits (n div 10) \<noteq> [] \<and> list_all is_digit (digits (n div 10))
           \<and> digits_value 10 digit_of (digits (n div 10)) = n div 10"
      using "1.IH"[OF False] "1.prems" by simp
    have d: "digits n = digits (n div 10) @ [char_of (48 + n mod 10)]"
      using False by (subst digits.simps) simp
    have c: "is_digit (char_of (48 + n mod 10))"
      using digit_of_char_of[OF m] by (simp add: is_digit_def)
    have "10 * (n div 10) + n mod 10 = n" by simp
    then show ?thesis
      unfolding d using ih c digit_of_char_of[OF m]
      by (simp add: digits_value_snoc)
  qed
qed

lemma takeWhile_all: "list_all P xs \<Longrightarrow> takeWhile P xs = xs"
  by (induction xs) auto

lemma is_digit_plain: "is_digit c \<Longrightarrow> \<not> is_space c \<and> c \<noteq> CHR ''-'' \<and> c \<noteq> CHR ''+''"
  by (auto simp: is_digit_def digit_of_def is_space_def Let_def split: if_splits)

lemma parseInt10_toString:
  assumes "0 \<le> n" "n < 2 ^ 53"
  shows "parseInt10 (toString_int n) = Fin (of_int n)" and "toString_int n \<noteq> []"
proof -
  have e: "to_Number (of_int n) = Fin (of_int n)"
    using assms by (intro to_Number_exact) simp
  from digits_props[OF assms(1)] obtain c cs where
    d: "digits n = c # cs" and a: "list_all is_digit (c # cs)"
    and v: "digits_value 10 digit_of (c # cs) = n"
    by (cases "digits n") auto
  have c: "\<not> is_space c \<and> c \<noteq> CHR ''-'' \<and> c \<noteq> CHR ''+''" using a is_digit_plain by simp
  have t: "takeWhile is_digit (c # cs) = c # cs" using a by (rule takeWhile_all)
  show "parseInt10 (toString_int n) = Fin (of_int n)"
    using assms c v e
    by (simp add: parseInt10_def toString_int_def d t Let_def del: takeWhile.simps)
  show "toString_int n \<noteq> []" using assms by (simp add: toString_int_def d)
qed

lemma expired_Fin: "expired t (Fin (of_int n)) \<longleftrightarrow> t - n > cacheTTL"
proof -
  have "js_minus (Fin (of_int t)) (Fin (of_int n)) = Fin (of_int (t - n))" by simp
  then show ?thesis unfolding expired_def js_gt_def by (auto simp only: js_le.simps of_int_le_iff)
qed

lemma fresh_after_write:
  assumes "storage_available w" "0 \<le> now w" "now w < 2 ^ 53"
  shows "fresh_at (setCachedData w gs) t \<longleftrightarrow> t - now w \<le> cacheTTL"
  using assms parseInt10_toString[of "now w"]
  by (auto simp: fresh_at_def setCachedData_def expired_Fin)

section \<open>The pipeline returns on well-typed entries\<close>

text \<open>
  Once a catalogue that is not empty is loaded and its entries are well typed, nothing
  in \<^verbatim>\<open>advancedSearch\<close> throws: it returns a list and leaves the manager and the
  browser as they were.
\<close>

lemma insert_by_total:
  assumes "\<And>y. y \<in> set ys \<Longrightarrow> \<exists>c. cmp x y = Inr c"
  shows "\<exists>r. insert_by cmp x ys = Inr r"
  using assms
proof (induction ys)
  case Nil
  then show ?case by simp
next
  case (Cons y ys)
  from Cons.prems[of y] obtain c where c: "cmp x y = Inr c" by auto
  from Cons obtain r where "insert_by cmp x ys = Inr r" by auto
  then show ?case using c by (auto simp: bind_err_def)
qed

lemma js_sort_total:
  assumes "\<And>x y. x \<in> set xs \<Longrightarrow> y \<in> set xs \<Longrightarrow> \<exists>c. cmp x y = Inr c"
  shows "\<exists>r. js_sort cmp xs = Inr r"
  using assms
proof (induction xs)
  case Nil
  then show ?case by simp
next
  case (Cons x xs)
  from Cons obtain s where s: "js_sort cmp xs = Inr s" by auto
  have "set s = set xs" using s by (rule js_sort_set)
  then have "\<exists>r. insert_by cmp x s = Inr r"
    using Cons.prems by (intro insert_by_total) auto
  then show ?case using s by (auto simp: bind_err_def)
qed

lemma comparison_total:
  "is_text (title a) \<Longrightarrow> is_text (title b) \<Longrightarrow> \<exists>c. comparison h s ord a b = Inr c"
  by (cases "title a"; cases "title b") (auto simp: comparison_def is_text_def)

lemma genre_some_total: "list_all is_text xs \<Longrightarrow> \<exists>b. genre_some xs wanted = Inr b"
  by (induction xs) (auto simp: bind_err_def lower_of_text)

lemma filter_err_total:
  "(\<And>x. x \<in> set xs \<Longrightarrow> \<exists>b. p x = Inr b) \<Longrightarrow> \<exists>r. filter_err p xs = Inr r \<and> set r \<subseteq> set xs"
proof (induction xs)
  case Nil
  then show ?case by simp
next
  case (Cons x xs)
  from Cons.prems[of x] obtain b where b: "p x = Inr b" by auto
  from Cons obtain r where "filter_err p xs = Inr r" "set r \<subseteq> set xs" by auto
  then show ?case using b by (auto simp: bind_err_def)
qed

lemma advancedSearch_returns:
  assumes "isLoaded m" "games m \<noteq> []" "\<forall>g \<in> set (games m). well_typed g"
  shows "\<exists>res. advancedSearch h w m f = (Inr res, m, w)"
proof -
  have l: "loadGames h w m = (Inr (games m), m, w)" using assms(1,2) by (rule loadGames_memo)
  obtain found where
    f: "(if \<not> blank (query f) then searchGames h w m (query f) else (Inr (games m), m, w))
          = (Inr found, m, w)"
    and fs: "set found \<subseteq> set (games m)"
  proof (cases "blank (query f)")
    case True
    then show ?thesis using that[of "games m"] by simp
  next
    case False
    then obtain q where q: "query f = Some q" by (cases "query f") (auto simp: blank_def)
    have "searchGames h w m (Some q)
            = (Inr (sort_key (\<lambda>g. - int (relevance g q)) (filter (\<lambda>g. 0 < relevance g q) (games m))), m, w)"
      using False q by (intro searchGames_ranked[OF l assms(3)]) simp
    then show ?thesis using that False q by auto
  qed
  have tf: "\<forall>g \<in> set found. well_typed g" using fs assms(3) by auto
  have "\<exists>g1. apply_genre f found = Inr g1 \<and> set g1 \<subseteq> set found"
  proof (cases "genre_active f")
    case False
    then have "apply_genre f found = Inr found"
      by (auto simp: apply_genre_def genre_active_def split: option.splits)
    then show ?thesis by simp
  next
    case True
    then obtain x where x: "genre' f = Some x" "x \<noteq> []" "x \<noteq> ''all''"
      by (auto simp: genre_active_def split: option.splits)
    have "\<exists>r. filter_err (\<lambda>game. genre_some (genre game) x) found = Inr r \<and> set r \<subseteq> set found"
      using tf by (intro filter_err_total genre_some_total) (auto simp: well_typed_def)
    then show ?thesis using x by (simp add: apply_genre_def)
  qed
  then obtain g1 where g1: "apply_genre f found = Inr g1" and g1s: "set g1 \<subseteq> set found"
    by blast
  let ?g3 = "apply_maxRating f (apply_minRating f g1)"
  have "set ?g3 \<subseteq> set g1" unfolding rating_filters_sound by auto
  then have t3: "\<forall>g \<in> set ?g3. is_text (title g)" using g1s tf by (auto simp: well_typed_def)
  have "\<exists>r. js_sort (comparison h s ord) ?g3 = Inr r" for s ord
    using t3 by (intro js_sort_total comparison_total) auto
  then have so: "\<exists>r. sortGames h ?g3 s ord = Inr r" for s ord
    by (simp add: sortGames_def)
  have "\<exists>res. apply_sort h f ?g3 = Inr res"
  proof (cases "sortBy f")
    case None
    then show ?thesis by (simp add: apply_sort_def)
  next
    case (Some s)
    then show ?thesis using so by (cases "s = []") (simp_all add: apply_sort_def)
  qed
  then obtain res where "apply_sort h f ?g3 = Inr res" by blast
  then show ?thesis
    using l f g1 by (auto simp: advancedSearch_def bind_err_def)
qed

end
